theory Spec2Isabelle
  imports Main
begin

section \<open>The library database of allahkma.py\<close>

text \<open>
  The class \<open>LibraryDatabase\<close> keeps three SQLite tables (books, borrowers, loans) and
  offers \<open>add_book\<close>, \<open>search_books\<close>, \<open>register_borrower\<close>, \<open>loan_book\<close>,
  \<open>return_book\<close> and \<open>get_overdue_loans\<close>. The tables are modelled as lists of rows in
  insertion order, every method as a function from the database before the call to the
  outcome and the database after it. The clock (\<open>datetime.now()\<close>) is an argument of
  every method that reads it.
\<close>

subsection \<open>Calendar dates: what the code uses of Python's datetime\<close>

text \<open>
  The code reads of a datetime only its calendar date (\<open>strftime("%Y-%m-%d")\<close>) and adds
  whole days to it, so a datetime is modelled by its year, month and day. The arithmetic
  follows CPython's datetime module: a date is turned into its proleptic Gregorian
  ordinal (day 1 is 0001-01-01), the days are added, and the ordinal is turned back.
\<close>

record date =
  year :: int
  month :: int
  day :: int

definition DAYS_IN_MONTH :: "int list" where
  "DAYS_IN_MONTH = [-1, 31, 28, 31, 30, 31, 30, 31, 31, 30, 31, 30, 31]"

definition DAYS_BEFORE_MONTH :: "int list" where
  "DAYS_BEFORE_MONTH = [-1, 0, 31, 59, 90, 120, 151, 181, 212, 243, 273, 304, 334]"

definition is_leap :: "int \<Rightarrow> bool" where
  "is_leap y = (y mod 4 = 0 \<and> (y mod 100 \<noteq> 0 \<or> y mod 400 = 0))"

definition days_before_year :: "int \<Rightarrow> int" where
  "days_before_year y = (let y1 = y - 1 in y1 * 365 + y1 div 4 - y1 div 100 + y1 div 400)"

definition days_before_month :: "int \<Rightarrow> int \<Rightarrow> int" where
  "days_before_month y m =
     DAYS_BEFORE_MONTH ! nat m + (if 2 < m \<and> is_leap y then 1 else 0)"

definition ymd2ord :: "int \<Rightarrow> int \<Rightarrow> int \<Rightarrow> int" where
  "ymd2ord y m d = days_before_year y + days_before_month y m + d"

definition DI400Y :: int where "DI400Y = 146097"
definition DI100Y :: int where "DI100Y = 36524"
definition DI4Y :: int where "DI4Y = 1461"
definition MAXORDINAL :: int where "MAXORDINAL = 3652059"

definition ord2ymd :: "int \<Rightarrow> int \<times> int \<times> int" where
  "ord2ymd n =
     (let k = n - 1;
          n400 = k div DI400Y; k1 = k mod DI400Y;
          n100 = k1 div DI100Y; k2 = k1 mod DI100Y;
          n4 = k2 div DI4Y; k3 = k2 mod DI4Y;
          n1 = k3 div 365; k4 = k3 mod 365;
          y = n400 * 400 + 1 + n100 * 100 + n4 * 4 + n1
      in if n1 = 4 \<or> n100 = 4 then (y - 1, 12, 31)
         else
           (let leapyear = (n1 = 3 \<and> (n4 \<noteq> 24 \<or> n100 = 3));
                m = (k4 + 50) div 32;
                preceding = DAYS_BEFORE_MONTH ! nat m + (if 2 < m \<and> leapyear then 1 else 0)
            in if k4 < preceding
               then (let m1 = m - 1;
                         preceding1 = preceding -
                           (DAYS_IN_MONTH ! nat m1 + (if m1 = 2 \<and> leapyear then 1 else 0))
                     in (y, m1, k4 - preceding1 + 1))
               else (y, m, k4 - preceding + 1)))"

definition toordinal :: "date \<Rightarrow> int" where
  "toordinal d = ymd2ord (year d) (month d) (day d)"

definition fromordinal :: "int \<Rightarrow> date" where
  "fromordinal n = (case ord2ymd n of (y, m, d) \<Rightarrow> \<lparr>year = y, month = m, day = d\<rparr>)"

text \<open>
  \<open>dt + timedelta(days=n)\<close>. Python raises OverflowError when \<open>n\<close> is beyond a
  timedelta's range (999999999 days either way) or the sum leaves the years 1 to 9999;
  \<open>None\<close> is that exception.
\<close>

definition datetime_add :: "date \<Rightarrow> int \<Rightarrow> date option" where
  "datetime_add d n =
     (if n < - 999999999 \<or> 999999999 < n then None
      else (let k = toordinal d + n
            in if 0 < k \<and> k \<le> MAXORDINAL then Some (fromordinal k) else None))"

text \<open>
  \<open>strftime("%Y-%m-%d")\<close>, as CPython prints it on Linux (glibc): \<open>%Y\<close> is the year in
  decimal with no padding, so a year before 1000 has fewer than four digits ("928");
  \<open>%m\<close> and \<open>%d\<close> are the month and the day in two digits. A datetime's year is from 1
  to 9999.
\<close>

definition digit :: "int \<Rightarrow> char" where
  "digit n = ''0123456789'' ! nat n"

definition pad2 :: "int \<Rightarrow> string" where
  "pad2 n = [digit (n div 10), digit (n mod 10)]"

definition pad4 :: "int \<Rightarrow> string" where
  "pad4 n = [digit (n div 1000), digit (n div 100 mod 10), digit (n div 10 mod 10), digit (n mod 10)]"

definition format_year :: "int \<Rightarrow> string" where
  "format_year y =
     (if y < 10 then [digit y]
      else if y < 100 then pad2 y
      else if y < 1000 then digit (y div 100) # pad2 (y mod 100)
      else pad4 y)"

definition strftime :: "date \<Rightarrow> string" where
  "strftime d = format_year (year d) @ ''-'' @ pad2 (month d) @ ''-'' @ pad2 (day d)"

subsection \<open>The tables\<close>

text \<open>
  One record per table of \<open>create_tables\<close>, one field per column. A column that may hold
  NULL is an option. \<open>title\<close>, \<open>author\<close> and \<open>name\<close> are declared NOT NULL; the other
  columns below without an option are given a value by every INSERT of the code.
\<close>

record book =
  books_id :: int
  title :: string
  author :: string
  isbn :: "string option"
  publication_year :: "int option"
  genre :: "string option"
  added_date :: string
  status :: string

record borrower =
  borrowers_id :: int
  name :: string
  email :: "string option"
  phone :: "string option"
  registration_date :: string

record loan =
  loans_id :: int
  book_id :: int
  borrower_id :: int
  loan_date :: string
  due_date :: string
  return_date :: "string option"

record db =
  books :: "book list"
  borrowers :: "borrower list"
  loans :: "loan list"

text \<open>The database right after \<open>create_tables\<close> on a new file.\<close>

definition empty_db :: db where
  "empty_db = \<lparr>books = [], borrowers = [], loans = []\<rparr>"

text \<open>
  \<open>INTEGER PRIMARY KEY AUTOINCREMENT\<close>: a new row gets an id one above the largest the
  table has held, 1 in an empty table. No method deletes a row, so the largest id the
  table has held is the largest it holds.
\<close>

definition new_rowid :: "int list \<Rightarrow> int" where
  "new_rowid ids = foldr max ids 0 + 1"

subsection \<open>SQLite's text comparison and LIKE\<close>

text \<open>
  \<open>due_date < ?\<close> on TEXT values compares the strings byte by byte (the BINARY
  collation); a proper prefix is smaller.
\<close>

fun text_less :: "string \<Rightarrow> string \<Rightarrow> bool" where
  "text_less [] [] = False"
| "text_less [] (y # ys) = True"
| "text_less (x # xs) [] = False"
| "text_less (x # xs) (y # ys) =
     ((of_char x :: nat) < of_char y \<or> (x = y \<and> text_less xs ys))"

text \<open>
  \<open>X LIKE P\<close>: in the pattern \<open>%\<close> matches any run of characters, \<open>_\<close> matches any one
  character, and any other character matches itself, the letters A to Z and a to z
  without regard to case.
\<close>

definition tolower :: "char \<Rightarrow> char" where
  "tolower c =
     (case map_of (zip ''ABCDEFGHIJKLMNOPQRSTUVWXYZ'' ''abcdefghijklmnopqrstuvwxyz'') c of
        Some l \<Rightarrow> l
      | None \<Rightarrow> c)"

fun like :: "string \<Rightarrow> string \<Rightarrow> bool" where
  "like [] s = (s = [])"
| "like (p # ps) s =
     (if p = CHR ''%'' then
        like ps s \<or> (case s of [] \<Rightarrow> False | c # cs \<Rightarrow> like (p # ps) cs)
      else
        (case s of [] \<Rightarrow> False
         | c # cs \<Rightarrow> (p = CHR ''_'' \<or> tolower p = tolower c) \<and> like ps cs))"

definition like_null :: "string \<Rightarrow> string option \<Rightarrow> bool" where
  \<comment> \<open>a NULL column value matches no pattern\<close>
  "like_null p v = (case v of None \<Rightarrow> False | Some s \<Rightarrow> like p s)"

subsection \<open>The methods\<close>

text \<open>
  How a call ends. A method returns True (\<open>None\<close> below) or prints a message and returns
  False; the failures are named after the message:
  \<^item> \<open>DuplicateISBN\<close>: "Error: Book with ISBN ... already exists." (\<open>add_book\<close>),
  \<^item> \<open>DuplicateEmail\<close>: "Error: Borrower with email ... already exists."
    (\<open>register_borrower\<close>),
  \<^item> \<open>BookUnavailable\<close>: "Error: Book is not available for loan." (\<open>loan_book\<close>),
  \<^item> \<open>LoanNotFound\<close>: "Error: Loan record not found." (\<open>return_book\<close>),
  \<^item> \<open>Raised e\<close>: the call ends with the exception \<open>e\<close>, which the method does not
    catch.
  The exceptions are \<open>sqlite3.IntegrityError\<close> (a NOT NULL or UNIQUE constraint refuses
  the row), \<open>OverflowError\<close> (the date arithmetic leaves its range, or an integer
  argument does not fit SQLite's 64-bit INTEGER and cannot be bound to a statement) and
  \<open>sqlite3.OperationalError\<close> (SQLite refuses a LIKE pattern of more than 50000 bytes).
\<close>

datatype exception = IntegrityError | OverflowError | OperationalError

datatype failure = DuplicateISBN | DuplicateEmail | BookUnavailable | LoanNotFound | Raised exception

text \<open>
  The integers the sqlite3 module binds to a statement: those of 64 bits. For any other
  Python int \<open>execute\<close> raises OverflowError before the statement runs.
\<close>

definition sqlite_int :: "int \<Rightarrow> bool" where
  "sqlite_int i = (- 9223372036854775808 \<le> i \<and> i \<le> 9223372036854775807)"

definition sqlite_int_or_null :: "int option \<Rightarrow> bool" where
  "sqlite_int_or_null v = (case v of None \<Rightarrow> True | Some i \<Rightarrow> sqlite_int i)"

text \<open>
  The INSERT of \<open>add_book\<close>. The publication year is bound first: a year outside 64 bits
  raises OverflowError and the statement never runs. SQLite then refuses the row,
  leaving the table as it was, when \<open>title\<close> or \<open>author\<close> is NULL or when the isbn is not
  NULL and a row has it already (NULLs are distinct under UNIQUE).
\<close>

definition insert_books ::
  "string option \<Rightarrow> string option \<Rightarrow> string option \<Rightarrow> int option \<Rightarrow> string option \<Rightarrow>
   string \<Rightarrow> string \<Rightarrow> db \<Rightarrow> exception + db" where
  "insert_books t a i y g added st d =
     (if \<not> sqlite_int_or_null y then Inl OverflowError
      else
        (case (t, a) of
           (Some t1, Some a1) \<Rightarrow>
             if i \<noteq> None \<and> i \<in> set (map isbn (books d)) then Inl IntegrityError
             else Inr (d\<lparr>books := books d @
                    [\<lparr>books_id = new_rowid (map books_id (books d)), title = t1, author = a1,
                      isbn = i, publication_year = y, genre = g, added_date = added,
                      status = st\<rparr>]\<rparr>)
         | _ \<Rightarrow> Inl IntegrityError))"

text \<open>
  \<open>add_book\<close> catches \<open>sqlite3.IntegrityError\<close> only; any other exception leaves the
  method.
\<close>

definition add_book ::
  "date \<Rightarrow> string option \<Rightarrow> string option \<Rightarrow> string option \<Rightarrow> int option \<Rightarrow>
   string option \<Rightarrow> db \<Rightarrow> failure option \<times> db" where
  "add_book now t a i y g d =
     (let added = strftime now
      in case insert_books t a i y g added ''available'' d of
           Inr d1 \<Rightarrow> (None, d1)
         | Inl IntegrityError \<Rightarrow> (Some DuplicateISBN, d)
         | Inl e \<Rightarrow> (Some (Raised e), d))"

text \<open>
  \<open>SELECT * FROM books WHERE column LIKE ?\<close>. SQLite evaluates LIKE on every row, and
  refuses a pattern of more than 50000 bytes when it does: with a book in the table the
  SELECT then raises \<open>sqlite3.OperationalError\<close>, which \<open>search_books\<close> does not catch.
\<close>

definition select_books_like ::
  "(book \<Rightarrow> string option) \<Rightarrow> string \<Rightarrow> db \<Rightarrow> exception + book list" where
  "select_books_like column pattern d =
     (if books d \<noteq> [] \<and> 50000 < length pattern then Inl OperationalError
      else Inr (filter (\<lambda>b. like_null pattern (column b)) (books d)))"

definition search_books :: "string \<Rightarrow> string \<Rightarrow> db \<Rightarrow> exception + book list" where
  "search_books query search_by d =
     (let search_query = ''%'' @ query @ ''%''
      in if search_by = ''title'' then select_books_like (\<lambda>b. Some (title b)) search_query d
         else if search_by = ''author'' then select_books_like (\<lambda>b. Some (author b)) search_query d
         else if search_by = ''isbn'' then select_books_like isbn search_query d
         else if search_by = ''genre'' then select_books_like genre search_query d
         else Inr [])"

text \<open>The INSERT of \<open>register_borrower\<close>: \<open>name\<close> is NOT NULL, \<open>email\<close> is UNIQUE.\<close>

definition insert_borrowers ::
  "string option \<Rightarrow> string option \<Rightarrow> string option \<Rightarrow> string \<Rightarrow> db \<Rightarrow> exception + db" where
  "insert_borrowers n e p reg d =
     (case n of
        Some n1 \<Rightarrow>
          if e \<noteq> None \<and> e \<in> set (map email (borrowers d)) then Inl IntegrityError
          else Inr (d\<lparr>borrowers := borrowers d @
                 [\<lparr>borrowers_id = new_rowid (map borrowers_id (borrowers d)), name = n1,
                   email = e, phone = p, registration_date = reg\<rparr>]\<rparr>)
      | None \<Rightarrow> Inl IntegrityError)"

definition register_borrower ::
  "date \<Rightarrow> string option \<Rightarrow> string option \<Rightarrow> string option \<Rightarrow> db \<Rightarrow> failure option \<times> db" where
  "register_borrower now n e p d =
     (let registration = strftime now
      in case insert_borrowers n e p registration d of
           Inr d1 \<Rightarrow> (None, d1)
         | Inl IntegrityError \<Rightarrow> (Some DuplicateEmail, d)
         | Inl e \<Rightarrow> (Some (Raised e), d))"

text \<open>\<open>UPDATE books SET status = ? WHERE id = ?\<close>\<close>

definition update_books_status :: "string \<Rightarrow> int \<Rightarrow> db \<Rightarrow> db" where
  "update_books_status st bid d =
     d\<lparr>books := map (\<lambda>b. if books_id b = bid then b\<lparr>status := st\<rparr> else b) (books d)\<rparr>"

text \<open>
  The INSERT of \<open>loan_book\<close>. A book id or borrower id outside 64 bits cannot be bound
  and raises OverflowError. The table declares both foreign keys, but the connection
  never turns their enforcement on (SQLite's default is off), so the row goes in
  whatever \<open>borrower_id\<close> SQLite can store; \<open>return_date\<close> is not among the columns and
  stays NULL.
\<close>

definition insert_loans :: "int \<Rightarrow> int \<Rightarrow> string \<Rightarrow> string \<Rightarrow> db \<Rightarrow> exception + db" where
  "insert_loans bid brid ld dd d =
     (if \<not> sqlite_int bid \<or> \<not> sqlite_int brid then Inl OverflowError
      else Inr (d\<lparr>loans := loans d @
        [\<lparr>loans_id = new_rowid (map loans_id (loans d)), book_id = bid, borrower_id = brid,
          loan_date = ld, due_date = dd, return_date = None\<rparr>]\<rparr>))"

definition default_loan_period_days :: int where
  "default_loan_period_days = 14"

text \<open>
  \<open>loan_book\<close> catches nothing. The SELECT binds the book id, so a book id outside 64 bits
  ends the call before anything is read. The due date is computed before the first
  write. The UPDATE has run when the INSERT binds the borrower id: if that raises, the
  call ends with the book's status changed and no loan stored (the method neither
  rolls back nor commits; the connection goes on seeing the UPDATE).
\<close>

definition loan_book :: "date \<Rightarrow> int \<Rightarrow> int \<Rightarrow> int \<Rightarrow> db \<Rightarrow> failure option \<times> db" where
  "loan_book now bid brid loan_period_days d =
     (if \<not> sqlite_int bid then (Some (Raised OverflowError), d)
      else
        (case find (\<lambda>b. books_id b = bid) (books d) of
           None \<Rightarrow> (Some BookUnavailable, d)
         | Some b \<Rightarrow>
             if status b \<noteq> ''available'' then (Some BookUnavailable, d)
             else
               (case datetime_add now loan_period_days of
                  None \<Rightarrow> (Some (Raised OverflowError), d)
                | Some due \<Rightarrow>
                    (let d1 = update_books_status ''loaned'' bid d
                     in case insert_loans bid brid (strftime now) (strftime due) d1 of
                          Inl e \<Rightarrow> (Some (Raised e), d1)
                        | Inr d2 \<Rightarrow> (None, d2)))))"

text \<open>\<open>UPDATE loans SET return_date = ? WHERE id = ?\<close>\<close>

definition update_loans_return_date :: "string \<Rightarrow> int \<Rightarrow> db \<Rightarrow> db" where
  "update_loans_return_date rd lid d =
     d\<lparr>loans := map (\<lambda>l. if loans_id l = lid then l\<lparr>return_date := Some rd\<rparr> else l) (loans d)\<rparr>"

text \<open>
  \<open>return_book\<close> catches nothing either: the SELECT binds the loan id, and a loan id
  outside 64 bits ends the call with OverflowError before anything is read.
\<close>

definition return_book :: "date \<Rightarrow> int \<Rightarrow> db \<Rightarrow> failure option \<times> db" where
  "return_book now lid d =
     (if \<not> sqlite_int lid then (Some (Raised OverflowError), d)
      else
        (case find (\<lambda>l. loans_id l = lid) (loans d) of
           None \<Rightarrow> (Some LoanNotFound, d)
         | Some l \<Rightarrow>
             (let bid = book_id l;
                  rd = strftime now;
                  d1 = update_loans_return_date rd lid d;
                  d2 = update_books_status ''available'' bid d1
              in (None, d2))))"

text \<open>
  The SELECT of \<open>get_overdue_loans\<close>: loans joined with their book and their borrower,
  one row (loan id, book title, borrower name, due date) for each match.
\<close>

definition get_overdue_loans :: "date \<Rightarrow> db \<Rightarrow> (int \<times> string \<times> string \<times> string) list" where
  "get_overdue_loans now d =
     (let today = strftime now
      in concat (map (\<lambda>l.
           concat (map (\<lambda>b.
             concat (map (\<lambda>r.
               if book_id l = books_id b \<and> borrower_id l = borrowers_id r \<and>
                  text_less (due_date l) today \<and> return_date l = None
               then [(loans_id l, title b, name r, due_date l)] else [])
             (borrowers d)))
           (books d)))
         (loans d)))"

subsection \<open>Sequences of calls\<close>

datatype op =
    AddBook "string option" "string option" "string option" "int option" "string option"
  | RegisterBorrower "string option" "string option" "string option"
  | LoanBook int int int
  | ReturnBook int

fun step :: "db \<Rightarrow> date \<times> op \<Rightarrow> db" where
  "step d (now, AddBook t a i y g) = snd (add_book now t a i y g d)"
| "step d (now, RegisterBorrower n e p) = snd (register_borrower now n e p d)"
| "step d (now, LoanBook bid brid days) = snd (loan_book now bid brid days d)"
| "step d (now, ReturnBook lid) = snd (return_book now lid d)"

definition run :: "db \<Rightarrow> (date \<times> op) list \<Rightarrow> db" where
  "run d ops = foldl step d ops"

subsection \<open>Example databases\<close>

definition jan25 :: date where
  "jan25 = \<lparr>year = 2024, month = 1, day = 25\<rparr>"

definition dune_ops :: "(date \<times> op) list" where
  "dune_ops =
     [(jan25, AddBook (Some ''Dune'') (Some ''Herbert'') (Some ''ISBN1'') (Some 1965) (Some ''SciFi'')),
      (jan25, RegisterBorrower (Some ''Ana'') (Some ''ana@x.com'') None)]"

definition db_dune :: db where
  "db_dune = run empty_db dune_ops"

definition db_dune_loaned :: db where
  "db_dune_loaned = run db_dune [(jan25, LoanBook 1 1 default_loan_period_days)]"

definition db_ana :: db where
  "db_ana = run empty_db [(jan25, RegisterBorrower (Some ''Ana'') (Some ''ana@x.com'') None)]"

text \<open>
  Four more calls after \<open>dune_ops\<close>: the book is lent, returned, lent again, and the
  first loan is returned a second time.
\<close>

definition double_return_ops :: "(date \<times> op) list" where
  "double_return_ops =
     dune_ops @
     [(jan25, LoanBook 1 1 14), (jan25, ReturnBook 1), (jan25, LoanBook 1 1 14),
      (jan25, ReturnBook 1)]"

text \<open>
  A second book, then two loans of seven days: one to Ana, one to the borrower id 999,
  which no borrower has.
\<close>

definition unknown_borrower_ops :: "(date \<times> op) list" where
  "unknown_borrower_ops =
     dune_ops @
     [(jan25, AddBook (Some ''Emma'') (Some ''Austen'') (Some ''ISBN2'') (Some 1815) None),
      (jan25, LoanBook 1 1 7), (jan25, LoanBook 2 999 7)]"

definition mar1 :: date where
  "mar1 = \<lparr>year = 2024, month = 3, day = 1\<rparr>"

subsection \<open>The properties the specification names\<close>

text \<open>
  The invariant of the specification's data model: a book's status is 'loaned' exactly
  when a loan with no return date references the book.
\<close>

definition status_matches_loans :: "db \<Rightarrow> bool" where
  "status_matches_loans d =
     list_all (\<lambda>b. (status b = ''loaned'') =
                    list_ex (\<lambda>l. book_id l = books_id b \<and> return_date l = None) (loans d))
       (books d)"

text \<open>
  What the specification asks of \<open>search_books\<close>: the field contains the query as a
  substring, letters compared without regard to case (\<open>contains_nocase q s\<close>: \<open>s\<close>
  contains \<open>q\<close>).
\<close>

fun starts_with_nocase :: "string \<Rightarrow> string \<Rightarrow> bool" where
  "starts_with_nocase [] s = True"
| "starts_with_nocase (q # qs) [] = False"
| "starts_with_nocase (q # qs) (c # cs) = (tolower q = tolower c \<and> starts_with_nocase qs cs)"

fun contains_nocase :: "string \<Rightarrow> string \<Rightarrow> bool" where
  "contains_nocase q [] = (q = [])"
| "contains_nocase q (c # cs) = (starts_with_nocase q (c # cs) \<or> contains_nocase q cs)"

text \<open>
  A query in which LIKE has nothing to read as a wildcard.
\<close>

definition wildcard_free :: "string \<Rightarrow> bool" where
  "wildcard_free q = (CHR ''%'' \<notin> set q \<and> CHR ''_'' \<notin> set q)"

text \<open>
  What the methods keep true of the loans and the books as long as no loan is returned
  twice and no call ends between the two writes of \<open>loan_book\<close>: loan ids are distinct, every loan's book exists, a book is 'loaned' exactly when
  an open loan references it, and a book has at most one open loan.
\<close>

definition consistent :: "db \<Rightarrow> bool" where
  "consistent d \<longleftrightarrow>
     distinct (map loans_id (loans d))
     \<and> (\<forall>l\<in>set (loans d). book_id l \<in> books_id ` set (books d))
     \<and> (\<forall>b\<in>set (books d).
          (status b = ''loaned'') =
          (\<exists>l\<in>set (loans d). book_id l = books_id b \<and> return_date l = None))
     \<and> (\<forall>l\<in>set (loans d). \<forall>k\<in>set (loans d).
          book_id l = book_id k \<and> return_date l = None \<and> return_date k = None
          \<longrightarrow> loans_id l = loans_id k)"

text \<open>
  A call that neither returns a loan returned before nor lends to a borrower id that is
  no integer of 64 bits, and a sequence of such calls.
\<close>

fun guarded_call :: "db \<Rightarrow> op \<Rightarrow> bool" where
  "guarded_call d (ReturnBook lid) =
     list_all (\<lambda>l. loans_id l = lid \<longrightarrow> return_date l = None) (loans d)"
| "guarded_call d (LoanBook bid brid days) = sqlite_int brid"
| "guarded_call d _ = True"

fun guarded_run :: "db \<Rightarrow> (date \<times> op) list \<Rightarrow> bool" where
  "guarded_run d [] = True"
| "guarded_run d (x # xs) = (guarded_call d (snd x) \<and> guarded_run (step d x) xs)"

text \<open>
  Calendar order on dates, and the dates whose year \<open>strftime\<close> prints in four digits:
  the years 1000 to 9999, with a month from 1 to 12 and a day from 1 to 31.
\<close>

definition date_less :: "date \<Rightarrow> date \<Rightarrow> bool" where
  "date_less a b =
     (year a < year b \<or> (year a = year b \<and>
        (month a < month b \<or> (month a = month b \<and> day a < day b))))"

definition printable_date :: "date \<Rightarrow> bool" where
  "printable_date d =
     (1000 \<le> year d \<and> year d \<le> 9999 \<and> 1 \<le> month d \<and> month d \<le> 12 \<and> 1 \<le> day d \<and> day d \<le> 31)"

text \<open>
  Every loan's \<open>book_id\<close> is the id of a book.
\<close>

definition loans_have_books :: "db \<Rightarrow> bool" where
  "loans_have_books d = list_all (\<lambda>l. book_id l \<in> set (map books_id (books d))) (loans d)"

section \<open>Properties\<close>

subsection \<open>Evaluating the examples\<close>

lemmas date_defs =
  strftime_def format_year_def pad4_def pad2_def digit_def datetime_add_def toordinal_def fromordinal_def
  ymd2ord_def ord2ymd_def days_before_year_def days_before_month_def is_leap_def
  DAYS_IN_MONTH_def DAYS_BEFORE_MONTH_def DI400Y_def DI100Y_def DI4Y_def MAXORDINAL_def

lemmas method_defs =
  add_book_def insert_books_def register_borrower_def insert_borrowers_def loan_book_def
  update_books_status_def insert_loans_def return_book_def update_loans_return_date_def
  new_rowid_def run_def empty_db_def default_loan_period_days_def sqlite_int_def
  sqlite_int_or_null_def

lemma strftime_jan25: "strftime jan25 = ''2024-01-25''"
  by (simp add: jan25_def date_defs)

lemma jan25_plus_14: "datetime_add jan25 14 = Some \<lparr>year = 2024, month = 2, day = 8\<rparr>"
  by (simp add: jan25_def date_defs Let_def)

lemma strftime_feb8: "strftime \<lparr>year = 2024, month = 2, day = 8\<rparr> = ''2024-02-08''"
  by (simp add: date_defs)

lemma db_dune_eq:
  "db_dune =
     \<lparr>books = [\<lparr>books_id = 1, title = ''Dune'', author = ''Herbert'', isbn = Some ''ISBN1'',
                publication_year = Some 1965, genre = Some ''SciFi'',
                added_date = ''2024-01-25'', status = ''available''\<rparr>],
      borrowers = [\<lparr>borrowers_id = 1, name = ''Ana'', email = Some ''ana@x.com'', phone = None,
                    registration_date = ''2024-01-25''\<rparr>],
      loans = []\<rparr>"
  by (simp add: db_dune_def dune_ops_def method_defs strftime_jan25)

lemma db_dune_loaned_eq:
  "db_dune_loaned =
     \<lparr>books = [\<lparr>books_id = 1, title = ''Dune'', author = ''Herbert'', isbn = Some ''ISBN1'',
                publication_year = Some 1965, genre = Some ''SciFi'',
                added_date = ''2024-01-25'', status = ''loaned''\<rparr>],
      borrowers = [\<lparr>borrowers_id = 1, name = ''Ana'', email = Some ''ana@x.com'', phone = None,
                    registration_date = ''2024-01-25''\<rparr>],
      loans = [\<lparr>loans_id = 1, book_id = 1, borrower_id = 1, loan_date = ''2024-01-25'',
                due_date = ''2024-02-08'', return_date = None\<rparr>]\<rparr>"
  by (simp add: db_dune_loaned_def db_dune_eq method_defs strftime_jan25 jan25_plus_14 strftime_feb8)

lemma db_ana_eq:
  "db_ana =
     \<lparr>books = [],
      borrowers = [\<lparr>borrowers_id = 1, name = ''Ana'', email = Some ''ana@x.com'', phone = None,
                    registration_date = ''2024-01-25''\<rparr>],
      loans = []\<rparr>"
  by (simp add: db_ana_def method_defs strftime_jan25)

lemma run_append: "run d (xs @ ys) = run (run d xs) ys"
  by (simp add: run_def)

lemma run_dune_ops: "run empty_db dune_ops = db_dune"
  by (simp add: db_dune_def)

lemma strftime_mar1: "strftime mar1 = ''2024-03-01''"
  by (simp add: mar1_def date_defs)

lemma jan25_plus_7: "datetime_add jan25 7 = Some \<lparr>year = 2024, month = 2, day = 1\<rparr>"
  by (simp add: jan25_def date_defs Let_def)

lemma strftime_feb1: "strftime \<lparr>year = 2024, month = 2, day = 1\<rparr> = ''2024-02-01''"
  by (simp add: date_defs)

lemma db_double_return_eq:
  "run empty_db double_return_ops =
     \<lparr>books = [\<lparr>books_id = 1, title = ''Dune'', author = ''Herbert'', isbn = Some ''ISBN1'',
                publication_year = Some 1965, genre = Some ''SciFi'',
                added_date = ''2024-01-25'', status = ''available''\<rparr>],
      borrowers = [\<lparr>borrowers_id = 1, name = ''Ana'', email = Some ''ana@x.com'', phone = None,
                    registration_date = ''2024-01-25''\<rparr>],
      loans = [\<lparr>loans_id = 1, book_id = 1, borrower_id = 1, loan_date = ''2024-01-25'',
                due_date = ''2024-02-08'', return_date = Some ''2024-01-25''\<rparr>,
               \<lparr>loans_id = 2, book_id = 1, borrower_id = 1, loan_date = ''2024-01-25'',
                due_date = ''2024-02-08'', return_date = None\<rparr>]\<rparr>"
  unfolding double_return_ops_def run_append run_dune_ops
  by (simp add: db_dune_eq method_defs strftime_jan25 jan25_plus_14 strftime_feb8)

lemma db_unknown_borrower_eq:
  "run empty_db unknown_borrower_ops =
     \<lparr>books = [\<lparr>books_id = 1, title = ''Dune'', author = ''Herbert'', isbn = Some ''ISBN1'',
                publication_year = Some 1965, genre = Some ''SciFi'',
                added_date = ''2024-01-25'', status = ''loaned''\<rparr>,
               \<lparr>books_id = 2, title = ''Emma'', author = ''Austen'', isbn = Some ''ISBN2'',
                publication_year = Some 1815, genre = None,
                added_date = ''2024-01-25'', status = ''loaned''\<rparr>],
      borrowers = [\<lparr>borrowers_id = 1, name = ''Ana'', email = Some ''ana@x.com'', phone = None,
                    registration_date = ''2024-01-25''\<rparr>],
      loans = [\<lparr>loans_id = 1, book_id = 1, borrower_id = 1, loan_date = ''2024-01-25'',
                due_date = ''2024-02-01'', return_date = None\<rparr>,
               \<lparr>loans_id = 2, book_id = 2, borrower_id = 999, loan_date = ''2024-01-25'',
                due_date = ''2024-02-01'', return_date = None\<rparr>]\<rparr>"
  unfolding unknown_borrower_ops_def run_append run_dune_ops
  by (simp add: db_dune_eq method_defs strftime_jan25 jan25_plus_7 strftime_feb1)

subsection \<open>Lending\<close>

lemma find_books_unavailable:
  assumes "\<forall>b\<in>set bs. books_id b = bid \<longrightarrow> status b \<noteq> ''available''"
    and "find (\<lambda>b. books_id b = bid) bs = Some b"
  shows "status b \<noteq> ''available''"
  using assms by (auto simp: find_Some_iff)

text \<open>
  C2, as amended. When no book has the id, or the book with the id has a status other
  than 'available', \<open>loan_book\<close> fails and the database after the call is the database
  before it: books, borrowers and loans are unchanged. The failure is BookUnavailable
  when the id is an integer of 64 bits; for any other id the SELECT cannot bind it and
  the call ends with OverflowError.
\<close>

theorem loan_book_unavailable:
  assumes "\<forall>b\<in>set (books d). books_id b = bid \<longrightarrow> status b \<noteq> ''available''"
  shows "loan_book now bid brid days d =
           (if sqlite_int bid then Some BookUnavailable else Some (Raised OverflowError), d)"
proof (cases "sqlite_int bid")
  case False
  then show ?thesis by (simp add: loan_book_def)
next
  case True
  show ?thesis
  proof (cases "find (\<lambda>b. books_id b = bid) (books d)")
    case None
    with True show ?thesis by (simp add: loan_book_def)
  next
    case (Some b)
    with assms have "status b \<noteq> ''available''"
      by (rule find_books_unavailable)
    with Some True show ?thesis by (simp add: loan_book_def)
  qed
qed

theorem loan_book_unavailable_witness:
  "loan_book jan25 1 1 14 db_dune_loaned = (Some BookUnavailable, db_dune_loaned)
   \<and> loan_book jan25 7 1 14 db_dune_loaned = (Some BookUnavailable, db_dune_loaned)
   \<and> loan_book jan25 (- 9223372036854775809) 1 14 db_dune_loaned
       = (Some (Raised OverflowError), db_dune_loaned)"
proof (intro conjI)
  have "\<forall>b\<in>set (books db_dune_loaned). books_id b = 1 \<longrightarrow> status b \<noteq> ''available''"
    by (simp add: db_dune_loaned_eq)
  from loan_book_unavailable[OF this, of jan25 1 14]
  show "loan_book jan25 1 1 14 db_dune_loaned = (Some BookUnavailable, db_dune_loaned)"
    by (simp add: sqlite_int_def)
  have "\<forall>b\<in>set (books db_dune_loaned). books_id b = 7 \<longrightarrow> status b \<noteq> ''available''"
    by (simp add: db_dune_loaned_eq)
  from loan_book_unavailable[OF this, of jan25 1 14]
  show "loan_book jan25 7 1 14 db_dune_loaned = (Some BookUnavailable, db_dune_loaned)"
    by (simp add: sqlite_int_def)
  have "\<forall>b\<in>set (books db_dune_loaned).
          books_id b = - 9223372036854775809 \<longrightarrow> status b \<noteq> ''available''"
    by (simp add: db_dune_loaned_eq)
  from loan_book_unavailable[OF this, of jan25 1 14]
  show "loan_book jan25 (- 9223372036854775809) 1 14 db_dune_loaned
       = (Some (Raised OverflowError), db_dune_loaned)"
    by (simp add: sqlite_int_def)
qed

text \<open>
  The claim C2 as written fails: no book has the id 9223372036854775808 (two to the
  63), and the call does not fail as BookUnavailable. The sqlite3 module cannot bind the
  id to the SELECT and raises OverflowError, which \<open>loan_book\<close> does not catch.
\<close>

theorem loan_book_unbound_id_counterexample:
  "map books_id (books db_dune) = [1]
   \<and> loan_book jan25 9223372036854775808 1 14 db_dune = (Some (Raised OverflowError), db_dune)"
  by (simp add: db_dune_eq loan_book_def sqlite_int_def)

lemma update_books_status_fields:
  "books (update_books_status st bid d) =
     map (\<lambda>b. if books_id b = bid then b\<lparr>status := st\<rparr> else b) (books d)"
  "borrowers (update_books_status st bid d) = borrowers d"
  "loans (update_books_status st bid d) = loans d"
  by (simp_all add: update_books_status_def)

lemma update_loans_return_date_fields:
  "books (update_loans_return_date rd lid d) = books d"
  "borrowers (update_loans_return_date rd lid d) = borrowers d"
  "loans (update_loans_return_date rd lid d) =
     map (\<lambda>l. if loans_id l = lid then l\<lparr>return_date := Some rd\<rparr> else l) (loans d)"
  by (simp_all add: update_loans_return_date_def)

lemma insert_loans_fields:
  assumes "insert_loans bid brid ld dd d = Inr d2"
  shows "books d2 = books d"
    and "borrowers d2 = borrowers d"
    and "loans d2 = loans d @
        [\<lparr>loans_id = new_rowid (map loans_id (loans d)), book_id = bid, borrower_id = brid,
          loan_date = ld, due_date = dd, return_date = None\<rparr>]"
  using assms by (auto simp: insert_loans_def split: if_splits)

lemma insert_loans_result:
  "(\<exists>d2. insert_loans bid brid ld dd d = Inr d2) = (sqlite_int bid \<and> sqlite_int brid)"
  "(insert_loans bid brid ld dd d = Inl e) = (e = OverflowError \<and> \<not> (sqlite_int bid \<and> sqlite_int brid))"
  by (auto simp: insert_loans_def)

lemma map_books_id_update_books_status:
  "map books_id (books (update_books_status st bid d)) = map books_id (books d)"
  by (simp add: update_books_status_fields)

lemma status_after_update:
  assumes "b \<in> set (books (update_books_status st bid d))" and "books_id b = bid"
  shows "status b = st"
proof -
  from assms(1) obtain b0 where b0: "b0 \<in> set (books d)"
    and b: "b = (if books_id b0 = bid then b0\<lparr>status := st\<rparr> else b0)"
    unfolding update_books_status_fields by (auto simp: image_iff)
  show ?thesis
  proof (cases "books_id b0 = bid")
    case True
    with b show ?thesis by simp
  next
    case False
    with b assms(2) show ?thesis by simp
  qed
qed

lemma other_books_after_update:
  assumes "b \<in> set (books (update_books_status st bid d))" and "books_id b \<noteq> bid"
  shows "b \<in> set (books d)"
proof -
  from assms(1) obtain b0 where b0: "b0 \<in> set (books d)"
    and b: "b = (if books_id b0 = bid then b0\<lparr>status := st\<rparr> else b0)"
    unfolding update_books_status_fields by (auto simp: image_iff)
  show ?thesis
  proof (cases "books_id b0 = bid")
    case True
    with b assms(2) show ?thesis by simp
  next
    case False
    with b b0 show ?thesis by simp
  qed
qed

lemma return_date_after_update:
  assumes "k \<in> set (loans (update_loans_return_date rd lid d))" and "loans_id k = lid"
  shows "return_date k = Some rd"
proof -
  from assms(1) obtain k0 where k0: "k0 \<in> set (loans d)"
    and k: "k = (if loans_id k0 = lid then k0\<lparr>return_date := Some rd\<rparr> else k0)"
    unfolding update_loans_return_date_fields by (auto simp: image_iff)
  show ?thesis
  proof (cases "loans_id k0 = lid")
    case True
    with k show ?thesis by simp
  next
    case False
    with k assms(2) show ?thesis by simp
  qed
qed

lemma stamped_in_update:
  assumes "l \<in> set (loans d)" and "loans_id l = lid"
  shows "l\<lparr>return_date := Some rd\<rparr> \<in> set (loans (update_loans_return_date rd lid d))"
proof -
  let ?f = "\<lambda>l. if loans_id l = lid then l\<lparr>return_date := Some rd\<rparr> else l"
  from assms(1) have "?f l \<in> ?f ` set (loans d)" by (rule imageI)
  with assms(2) show ?thesis
    by (simp add: update_loans_return_date_fields)
qed

lemma find_books_available:
  assumes "\<exists>b\<in>set bs. books_id b = bid"
    and "\<forall>b\<in>set bs. books_id b = bid \<longrightarrow> status b = ''available''"
  shows "\<exists>b. find (\<lambda>b. books_id b = bid) bs = Some b \<and> status b = ''available''"
proof (cases "find (\<lambda>b. books_id b = bid) bs")
  case None
  with assms(1) show ?thesis by (auto simp: find_None_iff)
next
  case (Some b)
  then have "b \<in> set bs" "books_id b = bid" by (auto simp: find_Some_iff)
  with assms(2) Some show ?thesis by simp
qed

lemma datetime_add_in_range:
  assumes "- 999999999 \<le> n" "n \<le> 999999999" "0 < toordinal now + n" "toordinal now + n \<le> MAXORDINAL"
  shows "datetime_add now n = Some (fromordinal (toordinal now + n))"
  using assms by (simp add: datetime_add_def Let_def)

lemma datetime_add_Some:
  assumes "datetime_add now n = Some due"
  shows "due = fromordinal (toordinal now + n)"
  using assms by (simp add: datetime_add_def Let_def split: if_splits)

text \<open>
  The three ways a call of \<open>loan_book\<close> ends: it fails before the first write; the INSERT
  cannot bind the borrower id after the UPDATE has run; or it succeeds, for an available
  book, with both writes done.
\<close>

lemma loan_book_cases:
  assumes "loan_book now bid brid days d = (r, d')"
  shows "(r \<noteq> None \<and> d' = d)
       \<or> (r = Some (Raised OverflowError) \<and> \<not> sqlite_int brid
            \<and> d' = update_books_status ''loaned'' bid d)
       \<or> (r = None \<and> sqlite_int bid \<and> sqlite_int brid
            \<and> (\<exists>b due. b \<in> set (books d) \<and> books_id b = bid \<and> status b = ''available''
                  \<and> datetime_add now days = Some due
                  \<and> insert_loans bid brid (strftime now) (strftime due)
                       (update_books_status ''loaned'' bid d) = Inr d'))"
proof (cases "sqlite_int bid")
  case False
  with assms show ?thesis by (auto simp: loan_book_def)
next
  case bid: True
  show ?thesis
  proof (cases "find (\<lambda>b. books_id b = bid) (books d)")
    case None
    with bid assms show ?thesis by (auto simp: loan_book_def)
  next
    case (Some b)
    then have b: "b \<in> set (books d)" "books_id b = bid"
      by (auto simp: find_Some_iff)
    show ?thesis
    proof (cases "status b = ''available''")
      case False
      with bid Some assms show ?thesis by (auto simp: loan_book_def)
    next
      case avail: True
      show ?thesis
      proof (cases "datetime_add now days")
        case None
        with bid Some avail assms show ?thesis by (auto simp: loan_book_def)
      next
        case due: (Some due)
        define d1 where "d1 = update_books_status ''loaned'' bid d"
        show ?thesis
        proof (cases "insert_loans bid brid (strftime now) (strftime due) d1")
          case (Inl e)
          then have "e = OverflowError" "\<not> sqlite_int brid"
            using bid by (simp_all add: insert_loans_result)
          moreover from Inl bid Some avail due assms have "r = Some (Raised e)" "d' = d1"
            by (simp_all add: loan_book_def Let_def d1_def)
          ultimately show ?thesis by (simp add: d1_def)
        next
          case (Inr d2)
          then have "sqlite_int brid"
            using insert_loans_result(1)[of bid brid "strftime now" "strftime due" d1] by blast
          moreover from Inr bid Some avail due assms have "r = None" "d' = d2"
            by (simp_all add: loan_book_def Let_def d1_def)
          ultimately show ?thesis
            using bid b avail due Inr unfolding d1_def by blast
        qed
      qed
    qed
  qed
qed

text \<open>
  The second way, on the example: with the borrower id 9223372036854775808 the call
  ends with OverflowError, the book is 'loaned' and no loan is stored.
\<close>

lemma loan_book_unbound_borrower:
  "fst (loan_book jan25 1 9223372036854775808 14 db_dune) = Some (Raised OverflowError)
   \<and> map status (books (snd (loan_book jan25 1 9223372036854775808 14 db_dune))) = [''loaned'']
   \<and> loans (snd (loan_book jan25 1 9223372036854775808 14 db_dune)) = []"
  by (simp add: db_dune_eq method_defs jan25_plus_14)

text \<open>
  C3, as amended. The claim as written holds only while the due date is a date Python can
  represent and the ids are integers SQLite can store. Take the outcome \<open>r\<close> and the
  database \<open>d'\<close> after \<open>loan_book(bid, brid, days)\<close>:
  \<^item> when a book has the id and its status is 'available', both ids are integers of 64
    bits, \<open>days\<close> is within a timedelta's range and \<open>now + days\<close> is an ordinal from 1 to
    3652059 (the years 1 to 9999), the call succeeds;
  \<^item> when the call succeeds, the loans are the loans before it and one new loan, whose
    \<open>loan_date\<close> is the date of \<open>now\<close>, whose \<open>due_date\<close> is the date \<open>days\<close> days later and
    whose \<open>return_date\<close> is NULL; the books have the ids they had, the book with the id is
    among them with the status 'loaned', and every other book and every borrower is as
    before;
  \<^item> when the borrower id is an integer of 64 bits and the call does not succeed, the
    database is unchanged: the status is set and the loan is created together or not at
    all.
\<close>

theorem loan_book_available:
  assumes "loan_book now bid brid days d = (r, d')"
  shows "((\<exists>b\<in>set (books d). books_id b = bid)
          \<and> (\<forall>b\<in>set (books d). books_id b = bid \<longrightarrow> status b = ''available'')
          \<and> sqlite_int bid \<and> sqlite_int brid
          \<and> - 999999999 \<le> days \<and> days \<le> 999999999
          \<and> 0 < toordinal now + days \<and> toordinal now + days \<le> MAXORDINAL
          \<longrightarrow> r = None)
     \<and> (r = None \<longrightarrow>
          loans d' = loans d @
            [\<lparr>loans_id = new_rowid (map loans_id (loans d)), book_id = bid, borrower_id = brid,
              loan_date = strftime now,
              due_date = strftime (fromordinal (toordinal now + days)),
              return_date = None\<rparr>]
          \<and> map books_id (books d') = map books_id (books d)
          \<and> bid \<in> set (map books_id (books d'))
          \<and> (\<forall>b\<in>set (books d'). books_id b = bid \<longrightarrow> status b = ''loaned'')
          \<and> (\<forall>b\<in>set (books d'). books_id b \<noteq> bid \<longrightarrow> b \<in> set (books d))
          \<and> borrowers d' = borrowers d)
     \<and> (sqlite_int brid \<longrightarrow> r \<noteq> None \<longrightarrow> d' = d)"
proof (intro conjI impI)
  assume h: "(\<exists>b\<in>set (books d). books_id b = bid)
          \<and> (\<forall>b\<in>set (books d). books_id b = bid \<longrightarrow> status b = ''available'')
          \<and> sqlite_int bid \<and> sqlite_int brid
          \<and> - 999999999 \<le> days \<and> days \<le> 999999999
          \<and> 0 < toordinal now + days \<and> toordinal now + days \<le> MAXORDINAL"
  then obtain b where b: "find (\<lambda>b. books_id b = bid) (books d) = Some b" "status b = ''available''"
    using find_books_available[of "books d" bid] by blast
  from h have due: "datetime_add now days = Some (fromordinal (toordinal now + days))"
    by (simp add: datetime_add_in_range)
  from h have ids: "sqlite_int bid" "sqlite_int brid" by simp_all
  then obtain d2 where "insert_loans bid brid (strftime now)
      (strftime (fromordinal (toordinal now + days))) (update_books_status ''loaned'' bid d) = Inr d2"
    using insert_loans_result(1) by blast
  with b due ids assms show "r = None"
    by (simp add: loan_book_def Let_def)
next
  assume "r = None"
  with loan_book_cases[OF assms] obtain b due where b: "b \<in> set (books d)" "books_id b = bid"
    and due: "datetime_add now days = Some due"
    and ins: "insert_loans bid brid (strftime now) (strftime due)
                (update_books_status ''loaned'' bid d) = Inr d'"
    by auto
  from due have due_eq: "due = fromordinal (toordinal now + days)"
    by (rule datetime_add_Some)
  note f = insert_loans_fields[OF ins]
  show "loans d' = loans d @
            [\<lparr>loans_id = new_rowid (map loans_id (loans d)), book_id = bid, borrower_id = brid,
              loan_date = strftime now,
              due_date = strftime (fromordinal (toordinal now + days)),
              return_date = None\<rparr>]"
    by (simp add: f(3) due_eq update_books_status_fields)
  show ids: "map books_id (books d') = map books_id (books d)"
    by (simp only: f(1) map_books_id_update_books_status)
  from b have "bid \<in> set (map books_id (books d))" by force
  then show "bid \<in> set (map books_id (books d'))" by (simp only: ids)
  show "\<forall>b\<in>set (books d'). books_id b = bid \<longrightarrow> status b = ''loaned''"
    unfolding f(1) by (blast intro: status_after_update)
  show "\<forall>b\<in>set (books d'). books_id b \<noteq> bid \<longrightarrow> b \<in> set (books d)"
    unfolding f(1) by (blast intro: other_books_after_update)
  show "borrowers d' = borrowers d"
    by (simp add: f(2) update_books_status_fields)
next
  assume "sqlite_int brid" "r \<noteq> None"
  with loan_book_cases[OF assms] show "d' = d" by blast
qed

theorem loan_book_available_witness:
  "fst (loan_book jan25 1 1 default_loan_period_days db_dune) = None
   \<and> loans (snd (loan_book jan25 1 1 default_loan_period_days db_dune)) =
       [\<lparr>loans_id = 1, book_id = 1, borrower_id = 1, loan_date = ''2024-01-25'',
         due_date = ''2024-02-08'', return_date = None\<rparr>]
   \<and> map status (books (snd (loan_book jan25 1 1 default_loan_period_days db_dune))) = [''loaned'']
   \<and> snd (loan_book jan25 1 1 default_loan_period_days db_dune_loaned) = db_dune_loaned"
proof -
  let ?res = "loan_book jan25 1 1 default_loan_period_days db_dune"
  have "?res = (fst ?res, snd ?res)" by simp
  note fact = loan_book_available[OF this]
  have avail: "(\<exists>b\<in>set (books db_dune). books_id b = 1)
          \<and> (\<forall>b\<in>set (books db_dune). books_id b = 1 \<longrightarrow> status b = ''available'')
          \<and> sqlite_int 1 \<and> sqlite_int 1
          \<and> - 999999999 \<le> default_loan_period_days \<and> default_loan_period_days \<le> 999999999
          \<and> 0 < toordinal jan25 + default_loan_period_days
          \<and> toordinal jan25 + default_loan_period_days \<le> MAXORDINAL"
    by (simp add: db_dune_eq default_loan_period_days_def jan25_def date_defs sqlite_int_def)
  with fact have ok: "fst ?res = None" by blast
  with fact have new: "loans (snd ?res) = loans db_dune @
            [\<lparr>loans_id = new_rowid (map loans_id (loans db_dune)), book_id = 1, borrower_id = 1,
              loan_date = strftime jan25,
              due_date = strftime (fromordinal (toordinal jan25 + default_loan_period_days)),
              return_date = None\<rparr>]"
    and ids: "map books_id (books (snd ?res)) = map books_id (books db_dune)"
    and flip: "\<forall>b\<in>set (books (snd ?res)). books_id b = 1 \<longrightarrow> status b = ''loaned''"
    by blast+
  have due: "strftime (fromordinal (toordinal jan25 + default_loan_period_days)) = ''2024-02-08''"
    by (simp add: default_loan_period_days_def jan25_def date_defs Let_def)
  from new have loans: "loans (snd ?res) =
       [\<lparr>loans_id = 1, book_id = 1, borrower_id = 1, loan_date = ''2024-01-25'',
         due_date = ''2024-02-08'', return_date = None\<rparr>]"
    by (simp add: due strftime_jan25 db_dune_eq new_rowid_def)
  from ids obtain b1 where b1: "books (snd ?res) = [b1]" "books_id b1 = 1"
    by (auto simp: db_dune_eq map_eq_Cons_conv)
  with flip have "status b1 = ''loaned''" by simp
  with b1 have st: "map status (books (snd ?res)) = [''loaned'']" by simp
  let ?res2 = "loan_book jan25 1 1 default_loan_period_days db_dune_loaned"
  have "?res2 = (fst ?res2, snd ?res2)" by simp
  note fact2 = loan_book_available[OF this]
  have "fst ?res2 \<noteq> None"
    by (simp add: db_dune_loaned_eq loan_book_def sqlite_int_def)
  moreover have "sqlite_int 1" by (simp add: sqlite_int_def)
  ultimately have "snd ?res2 = db_dune_loaned" using fact2 by blast
  with ok loans st show ?thesis by simp
qed

text \<open>
  The claim C3 as written fails: the book is available and the call does not succeed.
  With a period of 3000000 days the due date would lie after the year 9999, the addition
  \<open>loan_date + timedelta(days=loan_period_days)\<close> raises OverflowError, and nothing is
  written.
\<close>

theorem loan_book_overflow_counterexample:
  "map books_id (books db_dune) = [1] \<and> map status (books db_dune) = [''available'']
   \<and> loan_book jan25 1 1 3000000 db_dune = (Some (Raised OverflowError), db_dune)"
  by (simp add: db_dune_eq loan_book_def jan25_def date_defs sqlite_int_def)

lemma return_book_cases:
  "(\<not> sqlite_int lid \<and> return_book now lid d = (Some (Raised OverflowError), d))
   \<or> (sqlite_int lid \<and> lid \<notin> loans_id ` set (loans d)
        \<and> return_book now lid d = (Some LoanNotFound, d))
   \<or> (sqlite_int lid \<and> (\<exists>l. l \<in> set (loans d) \<and> loans_id l = lid
        \<and> return_book now lid d =
             (None, update_books_status ''available'' (book_id l)
                      (update_loans_return_date (strftime now) lid d))))"
proof (cases "sqlite_int lid")
  case False
  then show ?thesis by (simp add: return_book_def)
next
  case True
  show ?thesis
  proof (cases "find (\<lambda>l. loans_id l = lid) (loans d)")
    case None
    then have "lid \<notin> loans_id ` set (loans d)"
      by (auto simp: find_None_iff)
    with None True show ?thesis by (simp add: return_book_def)
  next
    case (Some l)
    then have "l \<in> set (loans d)" "loans_id l = lid"
      by (auto simp: find_Some_iff)
    moreover from Some True have "return_book now lid d =
             (None, update_books_status ''available'' (book_id l)
                      (update_loans_return_date (strftime now) lid d))"
      by (simp add: return_book_def Let_def)
    ultimately show ?thesis using True by blast
  qed
qed

text \<open>
  C4, as amended. Take the outcome \<open>r\<close> and the database \<open>d'\<close> after \<open>return_book(lid)\<close>:
  \<^item> it fails as LoanNotFound exactly when the id is an integer of 64 bits that no loan
    has, whether or not a loan was returned before;
  \<^item> it ends with OverflowError exactly when the id is no integer of 64 bits;
  \<^item> it succeeds exactly when a loan has the id;
  \<^item> when it succeeds, the loan with the id is in the table with \<open>return_date\<close> set to the
    date of \<open>now\<close> (as is every row with the id), the books have the ids they had, and
    every book with that loan's \<open>book_id\<close> has the status 'available';
  \<^item> when it does not succeed, the database is unchanged.
\<close>

theorem return_book_result:
  assumes "return_book now lid d = (r, d')"
  shows "(r = Some LoanNotFound \<longleftrightarrow> sqlite_int lid \<and> lid \<notin> loans_id ` set (loans d))
     \<and> (r = Some (Raised OverflowError) \<longleftrightarrow> \<not> sqlite_int lid)
     \<and> (r = None \<longleftrightarrow> sqlite_int lid \<and> lid \<in> loans_id ` set (loans d))
     \<and> (r = None \<longrightarrow>
          (\<exists>l\<in>set (loans d). loans_id l = lid
                \<and> l\<lparr>return_date := Some (strftime now)\<rparr> \<in> set (loans d')
                \<and> (\<forall>b\<in>set (books d'). books_id b = book_id l \<longrightarrow> status b = ''available''))
          \<and> (\<forall>l\<in>set (loans d'). loans_id l = lid \<longrightarrow> return_date l = Some (strftime now))
          \<and> map books_id (books d') = map books_id (books d))
     \<and> (r \<noteq> None \<longrightarrow> d' = d)"
proof -
  from return_book_cases[of lid now d] show ?thesis
  proof (elim disjE conjE exE)
    assume lid: "\<not> sqlite_int lid"
      and "return_book now lid d = (Some (Raised OverflowError), d)"
    with assms have "r = Some (Raised OverflowError)" "d' = d" by simp_all
    with lid show ?thesis by simp
  next
    assume lid: "sqlite_int lid" "lid \<notin> loans_id ` set (loans d)"
      and "return_book now lid d = (Some LoanNotFound, d)"
    with assms have "r = Some LoanNotFound" "d' = d" by simp_all
    with lid show ?thesis by simp
  next
    fix l
    assume lid: "sqlite_int lid" and l: "l \<in> set (loans d)" "loans_id l = lid"
      and res: "return_book now lid d =
             (None, update_books_status ''available'' (book_id l)
                      (update_loans_return_date (strftime now) lid d))"
    define d1 where "d1 = update_loans_return_date (strftime now) lid d"
    from res assms have r: "r = None"
      and d': "d' = update_books_status ''available'' (book_id l) d1"
      by (simp_all add: d1_def)
    have stamped: "l\<lparr>return_date := Some (strftime now)\<rparr> \<in> set (loans d')"
      using l by (simp add: d' d1_def update_books_status_fields stamped_in_update)
    have flipped: "\<forall>b\<in>set (books d'). books_id b = book_id l \<longrightarrow> status b = ''available''"
      unfolding d' by (blast intro: status_after_update)
    have all_stamped: "\<forall>k\<in>set (loans d'). loans_id k = lid \<longrightarrow> return_date k = Some (strftime now)"
      unfolding d' d1_def update_books_status_fields by (blast intro: return_date_after_update)
    have ids: "map books_id (books d') = map books_id (books d)"
      by (simp only: d' d1_def map_books_id_update_books_status update_loans_return_date_fields)
    from l have found: "lid \<in> loans_id ` set (loans d)" by (rule_tac image_eqI[of _ _ l]) simp_all
    have ex: "\<exists>l\<in>set (loans d). loans_id l = lid
                \<and> l\<lparr>return_date := Some (strftime now)\<rparr> \<in> set (loans d')
                \<and> (\<forall>b\<in>set (books d'). books_id b = book_id l \<longrightarrow> status b = ''available'')"
      using l stamped flipped by (intro bexI[of _ l] conjI)
    from r lid found ex all_stamped ids show ?thesis by simp
  qed
qed

theorem return_book_result_witness:
  "fst (return_book jan25 5 db_dune_loaned) = Some LoanNotFound
   \<and> fst (return_book jan25 1 db_dune_loaned) = None
   \<and> map return_date (loans (snd (return_book jan25 1 db_dune_loaned))) = [Some ''2024-01-25'']
   \<and> map status (books (snd (return_book jan25 1 db_dune_loaned))) = [''available'']"
proof -
  let ?miss = "return_book jan25 5 db_dune_loaned"
  have "?miss = (fst ?miss, snd ?miss)" by simp
  from return_book_result[OF this]
  have "fst ?miss = Some LoanNotFound \<longleftrightarrow> sqlite_int 5 \<and> 5 \<notin> loans_id ` set (loans db_dune_loaned)"
    by (rule conjunct1)
  moreover have "sqlite_int 5 \<and> 5 \<notin> loans_id ` set (loans db_dune_loaned)"
    by (simp add: db_dune_loaned_eq sqlite_int_def)
  ultimately have miss: "fst ?miss = Some LoanNotFound" by simp
  let ?hit = "return_book jan25 1 db_dune_loaned"
  have "?hit = (fst ?hit, snd ?hit)" by simp
  note fact = return_book_result[OF this]
  have "sqlite_int 1 \<and> 1 \<in> loans_id ` set (loans db_dune_loaned)"
    by (simp add: db_dune_loaned_eq sqlite_int_def)
  with fact have hit: "fst ?hit = None" by blast
  have "map return_date (loans (snd ?hit)) = [Some ''2024-01-25'']"
    "map status (books (snd ?hit)) = [''available'']"
    by (simp_all add: db_dune_loaned_eq method_defs strftime_jan25)
  with miss hit show ?thesis by simp
qed

text \<open>
  The claim C4 as written fails from right to left: no loan has the id
  9223372036854775808, and the call does not fail as LoanNotFound. The sqlite3 module
  cannot bind the id to the SELECT and raises OverflowError, which \<open>return_book\<close> does not
  catch.
\<close>

theorem return_book_unbound_id_counterexample:
  "map loans_id (loans db_dune_loaned) = [1]
   \<and> return_book jan25 9223372036854775808 db_dune_loaned
       = (Some (Raised OverflowError), db_dune_loaned)"
  by (simp add: db_dune_loaned_eq return_book_def sqlite_int_def)

subsection \<open>Uniqueness of isbn and email\<close>

text \<open>
  C7, as amended. \<open>add_book\<close> with an isbn that a stored book has fails, and the database
  is unchanged: no record is created. The failure is DuplicateISBN when the publication
  year is None or an integer of 64 bits; for any other year the INSERT cannot bind it
  and the call ends with OverflowError.
\<close>

theorem add_book_duplicate_isbn:
  assumes "Some i \<in> set (map isbn (books d))"
  shows "add_book now t a (Some i) y g d =
           (if sqlite_int_or_null y then Some DuplicateISBN else Some (Raised OverflowError), d)"
  using assms by (simp add: add_book_def insert_books_def split: option.splits)

theorem add_book_duplicate_isbn_witness:
  "add_book jan25 (Some ''Dune Messiah'') (Some ''Herbert'') (Some ''ISBN1'') (Some 1969) None db_dune
     = (Some DuplicateISBN, db_dune)
   \<and> length (books db_dune) = 1"
proof
  have "Some ''ISBN1'' \<in> set (map isbn (books db_dune))"
    by (simp add: db_dune_eq)
  from add_book_duplicate_isbn[OF this, of jan25 "Some ''Dune Messiah''" "Some ''Herbert''" "Some 1969" None]
  show "add_book jan25 (Some ''Dune Messiah'') (Some ''Herbert'') (Some ''ISBN1'') (Some 1969) None db_dune
     = (Some DuplicateISBN, db_dune)"
    by (simp add: sqlite_int_or_null_def sqlite_int_def)
  show "length (books db_dune) = 1"
    by (simp add: db_dune_eq)
qed

text \<open>
  The claim C7 as written fails: the isbn is that of the stored book, and the call does
  not fail as DuplicateISBN. The year 9223372036854775808 cannot be bound to the INSERT;
  the sqlite3 module raises OverflowError, which \<open>except sqlite3.IntegrityError\<close> does not
  catch. The books are unchanged.
\<close>

theorem add_book_unbound_year_counterexample:
  "map isbn (books db_dune) = [Some ''ISBN1'']
   \<and> add_book jan25 (Some ''Dune Messiah'') (Some ''Herbert'') (Some ''ISBN1'')
        (Some 9223372036854775808) None db_dune
       = (Some (Raised OverflowError), db_dune)"
  by (simp add: db_dune_eq add_book_def insert_books_def sqlite_int_or_null_def sqlite_int_def)

text \<open>
  C8. \<open>register_borrower\<close> with an email that a registered borrower has fails as
  DuplicateEmail, and the database is unchanged. In the witness Ana is registered, Bob
  is refused with her email, and the table still holds one borrower.
\<close>

theorem register_borrower_duplicate_email:
  assumes "Some e \<in> set (map email (borrowers d))"
  shows "register_borrower now n (Some e) p d = (Some DuplicateEmail, d)"
  using assms by (simp add: register_borrower_def insert_borrowers_def split: option.splits)

theorem register_borrower_duplicate_email_witness:
  "register_borrower jan25 (Some ''Bob'') (Some ''ana@x.com'') None db_ana = (Some DuplicateEmail, db_ana)
   \<and> length (borrowers (snd (register_borrower jan25 (Some ''Bob'') (Some ''ana@x.com'') None db_ana))) = 1"
proof -
  have "Some ''ana@x.com'' \<in> set (map email (borrowers db_ana))"
    by (simp add: db_ana_eq)
  then have "register_borrower jan25 (Some ''Bob'') (Some ''ana@x.com'') None db_ana = (Some DuplicateEmail, db_ana)"
    by (rule register_borrower_duplicate_email)
  then show ?thesis
    by (simp add: db_ana_eq)
qed

text \<open>
  C10. \<open>register_borrower\<close> with a name and no email (None) succeeds on every database
  and appends the borrower, whatever emails are stored and however many borrowers have
  none: a second such call right after the first succeeds too, and the table has grown
  by two.
\<close>

theorem register_borrower_without_email:
  "register_borrower now (Some n) None p d =
     (None, d\<lparr>borrowers := borrowers d @
        [\<lparr>borrowers_id = new_rowid (map borrowers_id (borrowers d)), name = n, email = None,
          phone = p, registration_date = strftime now\<rparr>]\<rparr>)
   \<and> fst (register_borrower now' (Some n') None p' (snd (register_borrower now (Some n) None p d))) = None
   \<and> length (borrowers (snd (register_borrower now' (Some n') None p'
        (snd (register_borrower now (Some n) None p d))))) = length (borrowers d) + 2"
  by (simp add: register_borrower_def insert_borrowers_def)

subsection \<open>Searching without wildcards\<close>

text \<open>
  For a query without \<open>%\<close> and \<open>_\<close>, short enough for the pattern to stay within 50000
  bytes, the LIKE pattern of \<open>search_books\<close> is a substring match without regard to the
  case of letters, and a field other than title, author, isbn and genre gives the empty
  list. A longer query raises \<open>sqlite3.OperationalError\<close> when the table has a book.
\<close>

lemma like_percent_only: "like ''%'' s"
  by (induction s) simp_all

lemma like_literal_prefix:
  assumes "wildcard_free q"
  shows "like (q @ ''%'') s = starts_with_nocase q s"
  using assms
proof (induction q arbitrary: s)
  case Nil
  then show ?case using like_percent_only by simp
next
  case (Cons c q)
  then have c: "c \<noteq> CHR ''%''" "c \<noteq> CHR ''_''" and q: "wildcard_free q"
    by (auto simp: wildcard_free_def)
  show ?case
  proof (cases s)
    case Nil
    with c show ?thesis by simp
  next
    case (Cons x xs)
    with c Cons.IH[OF q, of xs] show ?thesis by simp
  qed
qed

lemma like_substring:
  assumes "wildcard_free q"
  shows "like (''%'' @ q @ ''%'') s = contains_nocase q s"
proof (induction s)
  case Nil
  have "like (q @ ''%'') [] = starts_with_nocase q []"
    using assms by (rule like_literal_prefix)
  moreover have "starts_with_nocase q [] = (q = [])"
    by (cases q) simp_all
  ultimately show ?case by simp
next
  case (Cons c cs)
  have "like (q @ ''%'') (c # cs) = starts_with_nocase q (c # cs)"
    using assms by (rule like_literal_prefix)
  with Cons show ?case by simp
qed

lemma like_null_substring:
  assumes "wildcard_free q"
  shows "like_null (''%'' @ q @ ''%'') v = (case v of None \<Rightarrow> False | Some s \<Rightarrow> contains_nocase q s)"
  using like_substring[OF assms] by (cases v) (simp_all add: like_null_def del: like.simps)

lemma search_books_substring:
  assumes "wildcard_free q" and "length q + 2 \<le> 50000"
  shows "search_books q ''title'' d = Inr (filter (\<lambda>b. contains_nocase q (title b)) (books d))"
    and "search_books q ''author'' d = Inr (filter (\<lambda>b. contains_nocase q (author b)) (books d))"
    and "search_books q ''isbn'' d =
           Inr (filter (\<lambda>b. case isbn b of None \<Rightarrow> False | Some s \<Rightarrow> contains_nocase q s) (books d))"
    and "search_books q ''genre'' d =
           Inr (filter (\<lambda>b. case genre b of None \<Rightarrow> False | Some s \<Rightarrow> contains_nocase q s) (books d))"
  using like_null_substring[OF assms(1)] assms(2)
  by (simp_all add: search_books_def select_books_like_def Let_def del: like.simps)

lemma search_books_unknown_field:
  assumes "f \<notin> {''title'', ''author'', ''isbn'', ''genre''}"
  shows "search_books q f d = Inr []"
  using assms by (simp add: search_books_def Let_def)

lemma search_books_long_query:
  assumes "books d \<noteq> []" and "50000 < length q + 2"
    and "f \<in> {''title'', ''author'', ''isbn'', ''genre''}"
  shows "search_books q f d = Inl OperationalError"
  using assms by (auto simp: search_books_def select_books_like_def Let_def)

subsection \<open>The lending invariant under guarded calls\<close>

lemma foldr_max_ge: "i \<in> set ids \<Longrightarrow> i \<le> foldr max ids (0::int)"
  by (induction ids) auto

lemma new_rowid_fresh: "i \<in> set ids \<Longrightarrow> i < new_rowid ids"
  using foldr_max_ge[of i ids] by (simp add: new_rowid_def)

lemma new_rowid_notin: "new_rowid ids \<notin> set ids"
  using new_rowid_fresh[of "new_rowid ids" ids] by auto

lemma consistent_empty: "consistent empty_db"
  by (simp add: consistent_def empty_db_def)

lemma consistentD:
  assumes "consistent d"
  shows "distinct (map loans_id (loans d))"
    and "\<And>l. l \<in> set (loans d) \<Longrightarrow> book_id l \<in> books_id ` set (books d)"
    and "\<And>b. b \<in> set (books d) \<Longrightarrow>
           (status b = ''loaned'') =
           (\<exists>l\<in>set (loans d). book_id l = books_id b \<and> return_date l = None)"
    and "\<And>l k. l \<in> set (loans d) \<Longrightarrow> k \<in> set (loans d) \<Longrightarrow> book_id l = book_id k \<Longrightarrow>
           return_date l = None \<Longrightarrow> return_date k = None \<Longrightarrow> loans_id l = loans_id k"
  using assms unfolding consistent_def by blast+

lemma consistentI:
  assumes "distinct (map loans_id (loans d))"
    and "\<And>l. l \<in> set (loans d) \<Longrightarrow> book_id l \<in> books_id ` set (books d)"
    and "\<And>b. b \<in> set (books d) \<Longrightarrow>
           (status b = ''loaned'') =
           (\<exists>l\<in>set (loans d). book_id l = books_id b \<and> return_date l = None)"
    and "\<And>l k. l \<in> set (loans d) \<Longrightarrow> k \<in> set (loans d) \<Longrightarrow> book_id l = book_id k \<Longrightarrow>
           return_date l = None \<Longrightarrow> return_date k = None \<Longrightarrow> loans_id l = loans_id k"
  shows "consistent d"
  using assms unfolding consistent_def by blast

lemma insert_books_fields:
  assumes "insert_books t a i y g added st d = Inr d1"
  shows "\<exists>t1 a1. books d1 = books d @
      [\<lparr>books_id = new_rowid (map books_id (books d)), title = t1, author = a1,
        isbn = i, publication_year = y, genre = g, added_date = added, status = st\<rparr>]"
    and "borrowers d1 = borrowers d" and "loans d1 = loans d"
  using assms by (auto simp: insert_books_def split: option.splits if_splits)

lemma consistent_add_book:
  assumes "consistent d"
  shows "consistent (snd (add_book now t a i y g d))"
proof (cases "insert_books t a i y g (strftime now) ''available'' d")
  case (Inl e)
  with assms show ?thesis by (cases e) (simp_all add: add_book_def)
next
  case (Inr d1)
  from insert_books_fields[OF Inr] obtain nb where
    bs: "books d1 = books d @ [nb]" and nb: "books_id nb = new_rowid (map books_id (books d))"
      "status nb = ''available''" and ls: "loans d1 = loans d"
    by auto
  note c = consistentD[OF assms]
  have "consistent d1"
  proof (rule consistentI)
    show "distinct (map loans_id (loans d1))" using c(1) ls by simp
  next
    fix l assume "l \<in> set (loans d1)"
    then have "book_id l \<in> books_id ` set (books d)" using c(2) ls by simp
    then show "book_id l \<in> books_id ` set (books d1)" using bs by auto
  next
    fix b assume b: "b \<in> set (books d1)"
    show "(status b = ''loaned'') =
           (\<exists>l\<in>set (loans d1). book_id l = books_id b \<and> return_date l = None)"
    proof (cases "b = nb")
      case True
      have "\<not> (\<exists>l\<in>set (loans d). book_id l = books_id nb)"
      proof
        assume "\<exists>l\<in>set (loans d). book_id l = books_id nb"
        then obtain l where "l \<in> set (loans d)" "book_id l = books_id nb" by blast
        with c(2)[of l] have "books_id nb \<in> set (map books_id (books d))" by simp
        with nb(1) new_rowid_notin[of "map books_id (books d)"] show False by simp
      qed
      with True nb(2) ls show ?thesis by auto
    next
      case False
      with b bs have "b \<in> set (books d)" by simp
      from c(3)[OF this] ls show ?thesis by simp
    qed
  next
    fix l k assume "l \<in> set (loans d1)" "k \<in> set (loans d1)" "book_id l = book_id k"
      "return_date l = None" "return_date k = None"
    then show "loans_id l = loans_id k" using c(4)[of l k] ls by simp
  qed
  with Inr show ?thesis by (simp add: add_book_def)
qed

lemma consistent_register_borrower:
  assumes "consistent d"
  shows "consistent (snd (register_borrower now n e p d))"
proof (cases "insert_borrowers n e p (strftime now) d")
  case (Inl err)
  with assms show ?thesis by (cases err) (simp_all add: register_borrower_def)
next
  case (Inr d1)
  then have "books d1 = books d" "loans d1 = loans d"
    by (auto simp: insert_borrowers_def split: option.splits if_splits)
  then have "consistent d1 = consistent d" by (simp add: consistent_def)
  with assms Inr show ?thesis by (simp add: register_borrower_def)
qed

lemma books_id_update_books_status:
  "books_id ` set (books (update_books_status st bid d)) = books_id ` set (books d)"
proof -
  have "map books_id (books (update_books_status st bid d)) = map books_id (books d)"
    by (simp add: update_books_status_fields)
  then have "set (map books_id (books (update_books_status st bid d))) = set (map books_id (books d))"
    by (rule arg_cong)
  then show ?thesis by simp
qed

lemma loan_book_None:
  assumes "loan_book now bid brid days d = (None, d')"
  shows "\<exists>b due. b \<in> set (books d) \<and> books_id b = bid \<and> status b = ''available''
           \<and> insert_loans bid brid (strftime now) (strftime due)
                 (update_books_status ''loaned'' bid d) = Inr d'"
  using loan_book_cases[OF assms] by auto

lemma consistent_loan_book:
  assumes "consistent d" and "sqlite_int brid"
  shows "consistent (snd (loan_book now bid brid days d))"
proof (cases "fst (loan_book now bid brid days d)")
  case (Some e)
  have "loan_book now bid brid days d = (fst (loan_book now bid brid days d), snd (loan_book now bid brid days d))"
    by simp
  from loan_book_cases[OF this] Some assms(2) have "snd (loan_book now bid brid days d) = d" by auto
  with assms(1) show ?thesis by simp
next
  case None
  define d' where "d' = snd (loan_book now bid brid days d)"
  from None have "loan_book now bid brid days d = (None, d')"
    by (simp add: d'_def prod_eq_iff)
  from loan_book_None[OF this] obtain b0 due where b0: "b0 \<in> set (books d)" "books_id b0 = bid"
    "status b0 = ''available''"
    and ins: "insert_loans bid brid (strftime now) (strftime due)
                (update_books_status ''loaned'' bid d) = Inr d'"
    by blast
  note c = consistentD[OF assms(1)]
  note fl = insert_loans_fields[OF ins]
  define nl where "nl = \<lparr>loans_id = new_rowid (map loans_id (loans d)), book_id = bid,
     borrower_id = brid, loan_date = strftime now, due_date = strftime due, return_date = None\<rparr>"
  have ls: "loans d' = loans d @ [nl]"
    by (simp add: fl(3) nl_def update_books_status_fields)
  have bs: "books d' = map (\<lambda>b. if books_id b = bid then b\<lparr>status := ''loaned''\<rparr> else b) (books d)"
    by (simp add: fl(1) update_books_status_fields)
  have ids: "books_id ` set (books d') = books_id ` set (books d)"
    by (simp only: fl(1) books_id_update_books_status)
  have nl: "loans_id nl = new_rowid (map loans_id (loans d))" "book_id nl = bid" "return_date nl = None"
    by (simp_all add: nl_def)
  have no_open: "\<And>l. l \<in> set (loans d) \<Longrightarrow> book_id l = bid \<Longrightarrow> return_date l \<noteq> None"
  proof
    fix l assume "l \<in> set (loans d)" "book_id l = bid" "return_date l = None"
    with b0(2) have "\<exists>l\<in>set (loans d). book_id l = books_id b0 \<and> return_date l = None" by blast
    with c(3)[OF b0(1)] have "status b0 = ''loaned''" by simp
    with b0(3) show False by simp
  qed
  have "consistent d'"
  proof (rule consistentI)
    have "new_rowid (map loans_id (loans d)) \<notin> set (map loans_id (loans d))"
      by (rule new_rowid_notin)
    with c(1) show "distinct (map loans_id (loans d'))"
      by (simp add: ls nl(1))
  next
    fix l assume "l \<in> set (loans d')"
    then have "l \<in> set (loans d) \<or> l = nl" by (auto simp: ls)
    then have "book_id l \<in> books_id ` set (books d)"
    proof
      assume "l \<in> set (loans d)" then show ?thesis by (rule c(2))
    next
      assume "l = nl"
      with nl(2) b0 show ?thesis by force
    qed
    then show "book_id l \<in> books_id ` set (books d')" by (simp add: ids)
  next
    fix b assume "b \<in> set (books d')"
    then obtain b1 where b1: "b1 \<in> set (books d)"
      and b: "b = (if books_id b1 = bid then b1\<lparr>status := ''loaned''\<rparr> else b1)"
      by (auto simp: bs)
    show "(status b = ''loaned'') =
           (\<exists>l\<in>set (loans d'). book_id l = books_id b \<and> return_date l = None)"
    proof (cases "books_id b1 = bid")
      case True
      with b have "status b = ''loaned''" "books_id b = bid" by simp_all
      moreover have "nl \<in> set (loans d')" by (simp add: ls)
      ultimately show ?thesis using nl by blast
    next
      case False
      with b have bb: "b = b1" by simp
      have "(\<exists>l\<in>set (loans d'). book_id l = books_id b1 \<and> return_date l = None)
            = (\<exists>l\<in>set (loans d). book_id l = books_id b1 \<and> return_date l = None)"
        using False nl(2) by (auto simp: ls)
      with c(3)[OF b1] bb show ?thesis by simp
    qed
  next
    fix l k assume l: "l \<in> set (loans d')" and k: "k \<in> set (loans d')"
      and same: "book_id l = book_id k" and opn: "return_date l = None" "return_date k = None"
    from l k have "l \<in> set (loans d) \<or> l = nl" "k \<in> set (loans d) \<or> k = nl"
      by (auto simp: ls)
    then consider "l \<in> set (loans d)" "k \<in> set (loans d)" | "l = nl" "k = nl"
      | "l = nl" "k \<in> set (loans d)" | "l \<in> set (loans d)" "k = nl" by blast
    then show "loans_id l = loans_id k"
    proof cases
      case 1
      then show ?thesis using same opn by (rule c(4))
    next
      case 2
      then show ?thesis by simp
    next
      case 3
      with same nl(2) have "book_id k = bid" by simp
      with no_open[OF 3(2)] opn(2) show ?thesis by simp
    next
      case 4
      with same nl(2) have "book_id l = bid" by simp
      with no_open[OF 4(1)] opn(1) show ?thesis by simp
    qed
  qed
  then show ?thesis by (simp add: d'_def)
qed

lemma return_book_snd_cases:
  "snd (return_book now lid d) = d
   \<or> (\<exists>l. l \<in> set (loans d) \<and> loans_id l = lid
          \<and> snd (return_book now lid d) =
              update_books_status ''available'' (book_id l)
                (update_loans_return_date (strftime now) lid d))"
  using return_book_cases[of lid now d] by auto

lemma distinct_loans_id:
  assumes "distinct (map loans_id ls)" "l \<in> set ls" "k \<in> set ls" "loans_id l = loans_id k"
  shows "l = k"
  using assms by (meson distinct_map inj_on_def)

lemma consistent_return_book:
  assumes "consistent d"
    and guard: "\<And>l. l \<in> set (loans d) \<Longrightarrow> loans_id l = lid \<Longrightarrow> return_date l = None"
  shows "consistent (snd (return_book now lid d))"
proof -
  from return_book_snd_cases[of now lid d] show ?thesis
  proof (elim disjE conjE exE)
    assume "snd (return_book now lid d) = d"
    with assms(1) show ?thesis by simp
  next
    fix l0
    assume l0: "l0 \<in> set (loans d)" "loans_id l0 = lid"
      and res: "snd (return_book now lid d) =
              update_books_status ''available'' (book_id l0)
                (update_loans_return_date (strftime now) lid d)"
    define d' where "d' = snd (return_book now lid d)"
    define g :: "loan \<Rightarrow> loan" where "g = (\<lambda>l. if loans_id l = lid then l\<lparr>return_date := Some (strftime now)\<rparr> else l)"
    define f :: "book \<Rightarrow> book" where "f = (\<lambda>b. if books_id b = book_id l0 then b\<lparr>status := ''available''\<rparr> else b)"
    note c = consistentD[OF assms(1)]
    have ls: "loans d' = map g (loans d)"
      by (simp add: d'_def res g_def update_books_status_fields update_loans_return_date_fields)
    have bs: "books d' = map f (books d)"
      by (simp add: d'_def res f_def update_books_status_fields update_loans_return_date_fields)
    have g_id: "\<And>l. loans_id (g l) = loans_id l" and g_book: "\<And>l. book_id (g l) = book_id l"
      by (simp_all add: g_def)
    have f_id: "\<And>b. books_id (f b) = books_id b"
      by (simp add: f_def)
    have open0: "return_date l0 = None" using l0 by (rule guard)
    have g_open: "\<And>l. return_date (g l) = None \<Longrightarrow> loans_id l \<noteq> lid \<and> g l = l \<and> return_date l = None"
      by (simp add: g_def split: if_splits)
    have only0: "\<And>l. l \<in> set (loans d) \<Longrightarrow> loans_id l = lid \<Longrightarrow> l = l0"
      using distinct_loans_id[OF c(1) _ l0(1)] l0(2) by simp
    have "consistent d'"
    proof (rule consistentI)
      have "loans_id \<circ> g = loans_id"
        by (simp add: fun_eq_iff g_id)
      with c(1) show "distinct (map loans_id (loans d'))" by (simp add: ls)
    next
      fix l assume "l \<in> set (loans d')"
      then obtain l1 where l1: "l1 \<in> set (loans d)" "l = g l1" by (auto simp: ls)
      from c(2)[OF l1(1)] obtain b where "b \<in> set (books d)" "book_id l1 = books_id b" by auto
      then have "f b \<in> set (books d')" "book_id l = books_id (f b)"
        by (simp_all add: bs l1(2) g_book f_id)
      then show "book_id l \<in> books_id ` set (books d')" by blast
    next
      fix b assume "b \<in> set (books d')"
      then obtain b1 where b1: "b1 \<in> set (books d)" "b = f b1" by (auto simp: bs)
      show "(status b = ''loaned'') =
           (\<exists>l\<in>set (loans d'). book_id l = books_id b \<and> return_date l = None)"
      proof (cases "books_id b1 = book_id l0")
        case True
        then have st: "status b = ''available''" and bid: "books_id b = book_id l0"
          by (simp_all add: b1(2) f_def)
        have "\<not> (\<exists>l\<in>set (loans d'). book_id l = books_id b \<and> return_date l = None)"
        proof
          assume "\<exists>l\<in>set (loans d'). book_id l = books_id b \<and> return_date l = None"
          then obtain l1 where l1: "l1 \<in> set (loans d)" "book_id (g l1) = books_id b"
            "return_date (g l1) = None" by (auto simp: ls)
          from g_open[OF l1(3)] have ne: "loans_id l1 \<noteq> lid" and op: "return_date l1 = None"
            by simp_all
          from l1(2) bid have "book_id l1 = book_id l0" by (simp add: g_book)
          from c(4)[OF l1(1) l0(1) this op open0] l0(2) ne show False by simp
        qed
        with st show ?thesis by simp
      next
        case False
        then have bb: "b = b1" by (simp add: b1(2) f_def)
        have "(\<exists>l\<in>set (loans d'). book_id l = books_id b1 \<and> return_date l = None)
            = (\<exists>l\<in>set (loans d). book_id l = books_id b1 \<and> return_date l = None)"
        proof
          assume "\<exists>l\<in>set (loans d'). book_id l = books_id b1 \<and> return_date l = None"
          then obtain l1 where l1: "l1 \<in> set (loans d)" "book_id (g l1) = books_id b1"
            "return_date (g l1) = None" by (auto simp: ls)
          from g_open[OF l1(3)] l1(2) have "book_id l1 = books_id b1" "return_date l1 = None"
            by (simp_all add: g_book)
          with l1(1) show "\<exists>l\<in>set (loans d). book_id l = books_id b1 \<and> return_date l = None"
            by blast
        next
          assume "\<exists>l\<in>set (loans d). book_id l = books_id b1 \<and> return_date l = None"
          then obtain l1 where l1: "l1 \<in> set (loans d)" "book_id l1 = books_id b1"
            "return_date l1 = None" by blast
          have "loans_id l1 \<noteq> lid"
          proof
            assume "loans_id l1 = lid"
            with only0[OF l1(1)] have "l1 = l0" by simp
            with l1(2) False show False by simp
          qed
          then have gl: "g l1 = l1" by (simp add: g_def)
          from l1(1) have "g l1 \<in> set (loans d')" by (simp add: ls)
          moreover from l1 gl have "book_id (g l1) = books_id b1" "return_date (g l1) = None"
            by simp_all
          ultimately have "g l1 \<in> set (loans d')" "book_id (g l1) = books_id b1" "return_date (g l1) = None"
            by blast+
          then show "\<exists>l\<in>set (loans d'). book_id l = books_id b1 \<and> return_date l = None"
            by blast
        qed
        with c(3)[OF b1(1)] bb show ?thesis by simp
      qed
    next
      fix l k assume "l \<in> set (loans d')" "k \<in> set (loans d')"
        and same: "book_id l = book_id k" and opn: "return_date l = None" "return_date k = None"
      then obtain l1 k1 where l1: "l1 \<in> set (loans d)" "l = g l1" and k1: "k1 \<in> set (loans d)" "k = g k1"
        by (auto simp: ls)
      from opn l1(2) k1(2) g_open[of l1] g_open[of k1]
      have "g l1 = l1" "g k1 = k1" "return_date l1 = None" "return_date k1 = None" by simp_all
      with same l1 k1 c(4)[of l1 k1] show "loans_id l = loans_id k" by simp
    qed
    then show ?thesis by (simp add: d'_def)
  qed
qed

lemma consistent_step:
  assumes "consistent d" "guarded_call d (snd x)"
  shows "consistent (step d x)"
proof (cases x)
  case (Pair now o1)
  show ?thesis
  proof (cases o1)
    case (AddBook t a i y g)
    with Pair assms(1) show ?thesis by (simp add: consistent_add_book)
  next
    case (RegisterBorrower n e p)
    with Pair assms(1) show ?thesis by (simp add: consistent_register_borrower)
  next
    case (LoanBook bid brid days)
    with Pair assms show ?thesis by (simp add: consistent_loan_book)
  next
    case (ReturnBook lid)
    with Pair assms(2) have "\<And>l. l \<in> set (loans d) \<Longrightarrow> loans_id l = lid \<Longrightarrow> return_date l = None"
      by (simp add: list_all_iff)
    with assms(1) have "consistent (snd (return_book now lid d))"
      by (rule consistent_return_book)
    with Pair ReturnBook show ?thesis by simp
  qed
qed

lemma consistent_run:
  assumes "consistent d" "guarded_run d ops"
  shows "consistent (run d ops)"
  using assms
proof (induction ops arbitrary: d)
  case Nil
  then show ?case by (simp add: run_def)
next
  case (Cons x xs)
  from Cons.prems have "consistent (step d x)" "guarded_run (step d x) xs"
    by (simp_all add: consistent_step)
  then have "consistent (run (step d x) xs)" by (rule Cons.IH)
  then show ?case by (simp add: run_def)
qed

lemma consistent_status_matches_loans:
  assumes "consistent d"
  shows "status_matches_loans d"
  using consistentD(3)[OF assms] by (simp add: status_matches_loans_def list_all_iff list_ex_iff)

lemma status_matches_loans_run:
  assumes "guarded_run empty_db ops"
  shows "status_matches_loans (run empty_db ops)"
  using consistent_empty assms by (intro consistent_status_matches_loans consistent_run)

subsection \<open>Every loan references a book\<close>

text \<open>
  The half of the referential constraint that \<open>loan_book\<close> checks: after any calls on
  a new database, every loan's book exists.
\<close>

lemma loans_have_books_iff:
  "loans_have_books d = (\<forall>l\<in>set (loans d). book_id l \<in> books_id ` set (books d))"
  by (simp add: loans_have_books_def list_all_iff)

lemma loans_have_books_add_book:
  assumes "loans_have_books d"
  shows "loans_have_books (snd (add_book now t a i y g d))"
proof (cases "insert_books t a i y g (strftime now) ''available'' d")
  case (Inl e)
  with assms show ?thesis by (cases e) (simp_all add: add_book_def)
next
  case (Inr d1)
  from insert_books_fields[OF Inr] obtain nb where
    "books d1 = books d @ [nb]" "loans d1 = loans d" by auto
  with assms have "loans_have_books d1"
    unfolding loans_have_books_iff by auto
  with Inr show ?thesis by (simp add: add_book_def)
qed

lemma loans_have_books_register_borrower:
  assumes "loans_have_books d"
  shows "loans_have_books (snd (register_borrower now n e p d))"
proof (cases "insert_borrowers n e p (strftime now) d")
  case (Inl err)
  with assms show ?thesis by (cases err) (simp_all add: register_borrower_def)
next
  case (Inr d1)
  then have "books d1 = books d" "loans d1 = loans d"
    by (auto simp: insert_borrowers_def split: option.splits if_splits)
  then have "loans_have_books d1 = loans_have_books d" by (simp add: loans_have_books_def)
  with assms Inr show ?thesis by (simp add: register_borrower_def)
qed

lemma loans_have_books_loan_book:
  assumes "loans_have_books d"
  shows "loans_have_books (snd (loan_book now bid brid days d))"
proof -
  define r where "r = fst (loan_book now bid brid days d)"
  define d' where "d' = snd (loan_book now bid brid days d)"
  have "loan_book now bid brid days d = (r, d')"
    by (simp add: r_def d'_def)
  from loan_book_cases[OF this] have "loans_have_books d'"
  proof (elim disjE conjE exE)
    assume "d' = d"
    with assms show ?thesis by simp
  next
    assume "d' = update_books_status ''loaned'' bid d"
    then have "loans d' = loans d" "books_id ` set (books d') = books_id ` set (books d)"
      by (simp_all add: update_books_status_fields(3) books_id_update_books_status)
    with assms show ?thesis unfolding loans_have_books_iff by simp
  next
    fix b0 due
    assume b0: "b0 \<in> set (books d)" "books_id b0 = bid"
      and ins: "insert_loans bid brid (strftime now) (strftime due)
                  (update_books_status ''loaned'' bid d) = Inr d'"
    note fl = insert_loans_fields[OF ins]
    have ids: "books_id ` set (books d') = books_id ` set (books d)"
      by (simp only: fl(1) books_id_update_books_status)
    have "\<forall>l\<in>set (loans d'). book_id l \<in> books_id ` set (books d)"
    proof
      fix l assume "l \<in> set (loans d')"
      then have "l \<in> set (loans d) \<or> book_id l = bid"
        by (auto simp: fl(3) update_books_status_fields)
      then show "book_id l \<in> books_id ` set (books d)"
      proof
        assume "l \<in> set (loans d)"
        with assms show ?thesis unfolding loans_have_books_iff by blast
      next
        assume "book_id l = bid"
        with b0 show ?thesis by force
      qed
    qed
    then show ?thesis unfolding loans_have_books_iff ids .
  qed
  then show ?thesis by (simp add: d'_def)
qed

lemma loans_have_books_return_book:
  assumes "loans_have_books d"
  shows "loans_have_books (snd (return_book now lid d))"
proof -
  from return_book_snd_cases[of now lid d] show ?thesis
  proof (elim disjE conjE exE)
    assume "snd (return_book now lid d) = d"
    with assms show ?thesis by simp
  next
    fix l0
    assume res: "snd (return_book now lid d) =
              update_books_status ''available'' (book_id l0)
                (update_loans_return_date (strftime now) lid d)"
    have ids: "books_id ` set (books (snd (return_book now lid d))) = books_id ` set (books d)"
      by (simp add: res books_id_update_books_status update_loans_return_date_fields)
    have "\<forall>l\<in>set (loans (snd (return_book now lid d))). book_id l \<in> books_id ` set (books d)"
    proof
      fix l assume "l \<in> set (loans (snd (return_book now lid d)))"
      then obtain l1 where "l1 \<in> set (loans d)" "book_id l = book_id l1"
        by (auto simp: res update_books_status_fields update_loans_return_date_fields)
      with assms show "book_id l \<in> books_id ` set (books d)"
        unfolding loans_have_books_iff by simp
    qed
    then show ?thesis unfolding loans_have_books_iff ids .
  qed
qed

lemma loans_have_books_step:
  assumes "loans_have_books d"
  shows "loans_have_books (step d x)"
proof (cases x)
  case (Pair now o1)
  with assms show ?thesis
    by (cases o1)
      (simp_all add: loans_have_books_add_book loans_have_books_register_borrower
         loans_have_books_loan_book loans_have_books_return_book)
qed

lemma loans_have_books_run:
  assumes "loans_have_books d"
  shows "loans_have_books (run d ops)"
  using assms
proof (induction ops arbitrary: d)
  case Nil
  then show ?case by (simp add: run_def)
next
  case (Cons x xs)
  from Cons.prems have "loans_have_books (step d x)" by (rule loans_have_books_step)
  then have "loans_have_books (run (step d x) xs)" by (rule Cons.IH)
  then show ?case by (simp add: run_def)
qed

lemma loans_have_books_reachable: "loans_have_books (run empty_db ops)"
  by (rule loans_have_books_run) (simp add: loans_have_books_def empty_db_def)

subsection \<open>Overdue loans\<close>

text \<open>
  From the year 1000 on the strings of \<open>strftime\<close> compare as their dates do, so for
  such dates the text comparison of \<open>get_overdue_loans\<close> is a comparison of calendar
  dates. A loan whose book and borrower exist is then listed exactly when its due date is
  before today and it has no return date; a loan due today is not before today.
\<close>

lemma digit_range:
  assumes "0 \<le> n" "n \<le> 9"
  shows "n \<in> {0, 1, 2, 3, 4, 5, 6, 7, 8, 9 :: int}"
  using assms by simp arith

lemma of_char_digit:
  assumes "0 \<le> n" "n \<le> 9"
  shows "(of_char (digit n) :: nat) = 48 + nat n"
  using digit_range[OF assms] by (auto simp: digit_def)

lemma digit_eq_iff:
  assumes "0 \<le> a" "a \<le> 9" "0 \<le> b" "b \<le> 9"
  shows "(digit a = digit b) = (a = b)"
proof
  assume "digit a = digit b"
  then have "(of_char (digit a) :: nat) = of_char (digit b)" by simp
  with assms show "a = b" by (simp add: of_char_digit)
qed simp

lemma text_less_digit:
  assumes "0 \<le> a" "a \<le> 9" "0 \<le> b" "b \<le> 9"
  shows "text_less (digit a # xs) (digit b # ys) = (a < b \<or> (a = b \<and> text_less xs ys))"
proof -
  have "((of_char (digit a) :: nat) < of_char (digit b)) = (a < b)"
    using assms by (simp add: of_char_digit) arith
  then show ?thesis
    using digit_eq_iff[OF assms] by simp
qed

lemma lex_less_100:
  fixes qn rn qm rm :: int
  assumes "0 \<le> rn" "rn < 100" "0 \<le> rm" "rm < 100"
  shows "(100 * qn + rn < 100 * qm + rm) = (qn < qm \<or> (qn = qm \<and> rn < rm))"
proof (cases "qn < qm")
  case True
  then have "qn + 1 \<le> qm" by simp
  with assms have "100 * qn + rn < 100 * qm + rm" by linarith
  with True show ?thesis by simp
next
  case False
  show ?thesis
  proof (cases "qn = qm")
    case True
    then show ?thesis by simp
  next
    case ne: False
    with False have "qm + 1 \<le> qn" by simp
    with assms have "\<not> 100 * qn + rn < 100 * qm + rm" by linarith
    with False ne show ?thesis by simp
  qed
qed

lemma lex_eq_100:
  fixes qn rn qm rm :: int
  assumes "0 \<le> rn" "rn < 100" "0 \<le> rm" "rm < 100"
  shows "(100 * qn + rn = 100 * qm + rm) = (qn = qm \<and> rn = rm)"
proof (cases "qn = qm")
  case True
  then show ?thesis by simp
next
  case False
  then have "qn + 1 \<le> qm \<or> qm + 1 \<le> qn" by linarith
  with assms have "100 * qn + rn \<noteq> 100 * qm + rm" by linarith
  with False show ?thesis by simp
qed

lemma lex_less_10:
  fixes qn rn qm rm :: int
  assumes "0 \<le> rn" "rn < 10" "0 \<le> rm" "rm < 10"
  shows "(10 * qn + rn < 10 * qm + rm) = (qn < qm \<or> (qn = qm \<and> rn < rm))"
proof (cases "qn < qm")
  case True
  then have "qn + 1 \<le> qm" by simp
  with assms have "10 * qn + rn < 10 * qm + rm" by linarith
  with True show ?thesis by simp
next
  case False
  show ?thesis
  proof (cases "qn = qm")
    case True
    then show ?thesis by simp
  next
    case ne: False
    with False have "qm + 1 \<le> qn" by simp
    with assms have "\<not> 10 * qn + rn < 10 * qm + rm" by linarith
    with False ne show ?thesis by simp
  qed
qed

lemma lex_eq_10:
  fixes qn rn qm rm :: int
  assumes "0 \<le> rn" "rn < 10" "0 \<le> rm" "rm < 10"
  shows "(10 * qn + rn = 10 * qm + rm) = (qn = qm \<and> rn = rm)"
proof (cases "qn = qm")
  case True
  then show ?thesis by simp
next
  case False
  then have "qn + 1 \<le> qm \<or> qm + 1 \<le> qn" by linarith
  with assms have "10 * qn + rn \<noteq> 10 * qm + rm" by linarith
  with False show ?thesis by simp
qed

lemma text_less_pad2:
  assumes "0 \<le> n" "n \<le> 99" "0 \<le> m" "m \<le> 99"
  shows "text_less (pad2 n @ xs) (pad2 m @ ys) = (n < m \<or> (n = m \<and> text_less xs ys))"
proof -
  have r: "0 \<le> n div 10" "n div 10 \<le> 9" "0 \<le> m div 10" "m div 10 \<le> 9"
    "0 \<le> n mod 10" "n mod 10 \<le> 9" "0 \<le> m mod 10" "m mod 10 \<le> 9"
    using assms by simp_all
  have "(10 * (n div 10) + n mod 10 < 10 * (m div 10) + m mod 10)
          = (n div 10 < m div 10 \<or> (n div 10 = m div 10 \<and> n mod 10 < m mod 10))"
    by (rule lex_less_10) simp_all
  then have lt: "(n < m) = (n div 10 < m div 10 \<or> (n div 10 = m div 10 \<and> n mod 10 < m mod 10))"
    by simp
  have "(10 * (n div 10) + n mod 10 = 10 * (m div 10) + m mod 10)
          = (n div 10 = m div 10 \<and> n mod 10 = m mod 10)"
    by (rule lex_eq_10) simp_all
  then have eq: "(n = m) = (n div 10 = m div 10 \<and> n mod 10 = m mod 10)"
    by simp
  have "text_less (pad2 n @ xs) (pad2 m @ ys) =
          (n div 10 < m div 10 \<or> (n div 10 = m div 10 \<and>
             (n mod 10 < m mod 10 \<or> (n mod 10 = m mod 10 \<and> text_less xs ys))))"
    by (simp only: pad2_def append_Cons append_Nil text_less_digit[OF r(1-4)] text_less_digit[OF r(5-8)])
  also have "\<dots> = (n < m \<or> (n = m \<and> text_less xs ys))"
    unfolding lt eq by blast
  finally show ?thesis .
qed

lemma div_100_div_10: "(n::int) div 100 div 10 = n div 1000"
  using zdiv_zmult2_eq[of 10 n 100] by simp

lemma mod_100_digits: "(n::int) mod 100 = 10 * (n div 10 mod 10) + n mod 10"
  using zmod_zmult2_eq[of 10 n 10] by simp

lemma mod_100_div_10: "(n::int) mod 100 div 10 = n div 10 mod 10"
  unfolding mod_100_digits by simp

lemma mod_100_mod_10: "(n::int) mod 100 mod 10 = n mod 10"
  unfolding mod_100_digits by simp

lemma pad4_pad2: "pad4 n = pad2 (n div 100) @ pad2 (n mod 100)"
  by (simp add: pad4_def pad2_def div_100_div_10 mod_100_div_10 mod_100_mod_10)

lemma text_less_pad4:
  assumes "0 \<le> n" "n \<le> 9999" "0 \<le> m" "m \<le> 9999"
  shows "text_less (pad4 n @ xs) (pad4 m @ ys) = (n < m \<or> (n = m \<and> text_less xs ys))"
proof -
  have r: "0 \<le> n div 100" "n div 100 \<le> 99" "0 \<le> m div 100" "m div 100 \<le> 99"
    "0 \<le> n mod 100" "n mod 100 \<le> 99" "0 \<le> m mod 100" "m mod 100 \<le> 99"
    using assms by simp_all
  have "(100 * (n div 100) + n mod 100 < 100 * (m div 100) + m mod 100)
          = (n div 100 < m div 100 \<or> (n div 100 = m div 100 \<and> n mod 100 < m mod 100))"
    by (rule lex_less_100) simp_all
  then have lt: "(n < m) = (n div 100 < m div 100 \<or> (n div 100 = m div 100 \<and> n mod 100 < m mod 100))"
    by simp
  have "(100 * (n div 100) + n mod 100 = 100 * (m div 100) + m mod 100)
          = (n div 100 = m div 100 \<and> n mod 100 = m mod 100)"
    by (rule lex_eq_100) simp_all
  then have eq: "(n = m) = (n div 100 = m div 100 \<and> n mod 100 = m mod 100)"
    by simp
  have "text_less (pad4 n @ xs) (pad4 m @ ys) =
          (n div 100 < m div 100 \<or> (n div 100 = m div 100 \<and>
             (n mod 100 < m mod 100 \<or> (n mod 100 = m mod 100 \<and> text_less xs ys))))"
    by (simp only: pad4_pad2 append_assoc text_less_pad2[OF r(1-4)] text_less_pad2[OF r(5-8)])
  also have "\<dots> = (n < m \<or> (n = m \<and> text_less xs ys))"
    unfolding lt eq by blast
  finally show ?thesis .
qed

lemma text_less_dash: "text_less (''-'' @ xs) (''-'' @ ys) = text_less xs ys"
  by simp

lemma text_less_strftime:
  assumes "printable_date a" "printable_date b"
  shows "text_less (strftime a) (strftime b) = date_less a b"
proof -
  from assms have y: "0 \<le> year a" "year a \<le> 9999" "0 \<le> year b" "year b \<le> 9999"
    and m: "0 \<le> month a" "month a \<le> 99" "0 \<le> month b" "month b \<le> 99"
    and d: "0 \<le> day a" "day a \<le> 99" "0 \<le> day b" "day b \<le> 99"
    by (simp_all add: printable_date_def)
  have last: "text_less (pad2 (day a)) (pad2 (day b)) = (day a < day b)"
    using text_less_pad2[OF d, of "[]" "[]"] by simp
  from assms have "format_year (year a) = pad4 (year a)" "format_year (year b) = pad4 (year b)"
    by (simp_all add: printable_date_def format_year_def)
  then show ?thesis
    unfolding strftime_def date_less_def
    by (simp only: text_less_pad4[OF y] text_less_dash text_less_pad2[OF m] last)
qed

lemma in_overdue_row:
  "(x \<in> set (if c then [y] else [])) = (c \<and> x = y)"
  by (cases c) auto

lemma get_overdue_loans_iff:
  "(lid, t, n, dd) \<in> set (get_overdue_loans now d) \<longleftrightarrow>
     (\<exists>l\<in>set (loans d). \<exists>b\<in>set (books d). \<exists>r\<in>set (borrowers d).
        (book_id l = books_id b \<and> borrower_id l = borrowers_id r
         \<and> text_less (due_date l) (strftime now) \<and> return_date l = None)
        \<and> (lid, t, n, dd) = (loans_id l, title b, name r, due_date l))"
  unfolding get_overdue_loans_def Let_def
  by (simp only: set_concat set_map UN_iff image_iff bex_simps in_overdue_row)

lemma overdue_listed_iff:
  assumes ids: "distinct (map loans_id (loans d))"
    and l: "l \<in> set (loans d)"
    and book: "book_id l \<in> books_id ` set (books d)"
    and borrower: "borrower_id l \<in> borrowers_id ` set (borrowers d)"
  shows "(loans_id l \<in> fst ` set (get_overdue_loans now d))
         = (text_less (due_date l) (strftime now) \<and> return_date l = None)"
proof
  assume "loans_id l \<in> fst ` set (get_overdue_loans now d)"
  then obtain t n dd where "(loans_id l, t, n, dd) \<in> set (get_overdue_loans now d)"
    by force
  then obtain k where k: "k \<in> set (loans d)" "loans_id k = loans_id l"
    "text_less (due_date k) (strftime now)" "return_date k = None"
    unfolding get_overdue_loans_iff by auto
  from distinct_loans_id[OF ids k(1) l k(2)] k(3,4)
  show "text_less (due_date l) (strftime now) \<and> return_date l = None" by simp
next
  assume over: "text_less (due_date l) (strftime now) \<and> return_date l = None"
  from book obtain b where b: "b \<in> set (books d)" "book_id l = books_id b" by auto
  from borrower obtain r where r: "r \<in> set (borrowers d)" "borrower_id l = borrowers_id r" by auto
  from l b r over have "(loans_id l, title b, name r, due_date l) \<in> set (get_overdue_loans now d)"
    unfolding get_overdue_loans_iff by blast
  then show "loans_id l \<in> fst ` set (get_overdue_loans now d)" by force
qed

lemma overdue_listed_by_date:
  assumes "distinct (map loans_id (loans d))" "l \<in> set (loans d)"
    and "book_id l \<in> books_id ` set (books d)"
    and "borrower_id l \<in> borrowers_id ` set (borrowers d)"
    and "due_date l = strftime due" "printable_date due" "printable_date now"
  shows "(loans_id l \<in> fst ` set (get_overdue_loans now d))
         = (date_less due now \<and> return_date l = None)"
  using overdue_listed_iff[OF assms(1-4), of now] text_less_strftime[OF assms(6,7)] assms(5)
  by simp

lemma not_overdue_on_due_date: "\<not> date_less d d"
  by (simp add: date_less_def)

subsection \<open>Where the code leaves the specification\<close>

text \<open>
  C1 does not hold of the code. \<open>return_book\<close> does not look at the loan's
  \<open>return_date\<close>: returning loan 1 a second time, after the book went out again as loan
  2, sets the book to 'available' while loan 2 is open. After \<open>double_return_ops\<close> the
  only book is 'available', loan 2 references it and has no return date, and the
  invariant is false.
\<close>

theorem double_return_breaks_status:
  "map status (books (run empty_db double_return_ops)) = [''available'']
   \<and> map (\<lambda>l. (loans_id l, book_id l, return_date l)) (loans (run empty_db double_return_ops))
       = [(1, 1, Some ''2024-01-25''), (2, 1, None)]
   \<and> \<not> status_matches_loans (run empty_db double_return_ops)"
  by (simp add: db_double_return_eq status_matches_loans_def)

text \<open>
  C6 does not hold of the code. \<open>loan_book\<close> looks the book up and never the borrower,
  and SQLite does not enforce the declared foreign keys: after \<open>unknown_borrower_ops\<close>
  loan 2 has the borrower id 999 and the only borrower has the id 1.
\<close>

theorem loan_to_unknown_borrower:
  "map borrowers_id (borrowers (run empty_db unknown_borrower_ops)) = [1]
   \<and> map (\<lambda>l. (loans_id l, borrower_id l)) (loans (run empty_db unknown_borrower_ops))
       = [(1, 1), (2, 999)]"
  by (simp add: db_unknown_borrower_eq)

text \<open>
  C5 does not hold of the code, by the same defect. On 2024-03-01 both loans of
  \<open>unknown_borrower_ops\<close> are due earlier (2024-02-01) and neither is returned, but
  \<open>get_overdue_loans\<close> joins the loans with the borrowers and so lists loan 1 only: the
  loan of the unknown borrower is overdue and missing.
\<close>

theorem overdue_loan_of_unknown_borrower_missing:
  "get_overdue_loans mar1 (run empty_db unknown_borrower_ops) = [(1, ''Dune'', ''Ana'', ''2024-02-01'')]
   \<and> map (\<lambda>l. (loans_id l, text_less (due_date l) (strftime mar1), return_date l))
         (loans (run empty_db unknown_borrower_ops))
       = [(1, True, None), (2, True, None)]"
  by (simp add: db_unknown_borrower_eq get_overdue_loans_def strftime_mar1)

text \<open>
  C9 does not hold of the code. The query goes into the LIKE pattern as it is, so a
  \<open>_\<close> or \<open>%\<close> in it is a wildcard: the query \<open>D_ne\<close> finds the book titled Dune, whose
  title does not contain \<open>D_ne\<close>.
\<close>

theorem search_books_wildcard:
  "search_books ''D_ne'' ''title'' db_dune = Inr (books db_dune)
   \<and> map title (books db_dune) = [''Dune'']
   \<and> \<not> contains_nocase ''D_ne'' ''Dune''
   \<and> contains_nocase ''dun'' ''Dune''"
  by (simp add: db_dune_eq search_books_def select_books_like_def like_null_def tolower_def)

end
